theory Spec2Isabelle
  imports Main "HOL-Library.Log_Nat" "HOL-Library.Multiset"
begin

section \<open>Errors, machine integers and decimal text\<close>

text \<open>
  Go errors are values. \<open>Errorf msg\<close> is an error with the given message,
  \<open>Wrap prefix e\<close> is \<^verbatim>\<open>fmt.Errorf("prefix: %w", e)\<close>, and
  \<open>ErrNoDeploymentsFound\<close> is the sentinel of package \<^verbatim>\<open>last\<close>.
\<close>

datatype error =
    Errorf string
  | Wrap string error
  | ErrNoDeploymentsFound

text \<open>
  \<^verbatim>\<open>time.Duration\<close> is an \<^verbatim>\<open>int64\<close> count of nanoseconds. Durations are
  integers here and every arithmetic operation of the source that can leave the
  64-bit range is followed by \<open>wrap64\<close>, Go's silent two's-complement wrap-around.
\<close>

type_synonym Duration = int

definition MaxInt64 :: int where
  "MaxInt64 = 9223372036854775807"

definition wrap64 :: "int \<Rightarrow> int" where
  "wrap64 x = (x + 9223372036854775808) mod 18446744073709551616 - 9223372036854775808"

definition Second :: Duration where "Second = 1000000000"
definition Minute :: Duration where "Minute = 60 * Second"
definition Hour :: Duration where "Hour = 60 * Minute"

text \<open>Go's \<^verbatim>\<open>/\<close> and \<^verbatim>\<open>%\<close> on integers truncate towards zero.\<close>

definition go_div :: "int \<Rightarrow> int \<Rightarrow> int" where
  "go_div a b = sgn a * sgn b * (\<bar>a\<bar> div \<bar>b\<bar>)"

definition go_mod :: "int \<Rightarrow> int \<Rightarrow> int" where
  "go_mod a b = a - b * go_div a b"

text \<open>Decimal rendering, as \<^verbatim>\<open>%d\<close> of \<^verbatim>\<open>fmt.Sprintf\<close> and \<^verbatim>\<open>strconv.Itoa\<close> do it.\<close>

definition digit_char :: "int \<Rightarrow> char" where
  "digit_char n = char_of (48 + n)"

function show_dec :: "int \<Rightarrow> string" where
  "show_dec n = (if n < 10 then [digit_char n] else show_dec (n div 10) @ [digit_char (n mod 10)])"
  by pat_completeness auto
termination
  by (relation "measure nat") auto

definition Itoa :: "int \<Rightarrow> string" where
  "Itoa i = (if i < 0 then CHR ''-'' # show_dec (- i) else show_dec i)"

text \<open>Decimal reading: \<open>\d\<close> of Go's regexp matches the ASCII digits only.\<close>

definition is_digit :: "char \<Rightarrow> bool" where
  "is_digit c = (48 \<le> (of_char c :: int) \<and> (of_char c :: int) \<le> 57)"

definition digit_val :: "char \<Rightarrow> int" where
  "digit_val c = of_char c - 48"

definition dec_val :: "string \<Rightarrow> int" where
  "dec_val ds = foldl (\<lambda>acc c. 10 * acc + digit_val c) 0 ds"

text \<open>
  \<^verbatim>\<open>strconv.Atoi\<close>: an optional sign, then one or more decimal digits; a value
  outside \<^verbatim>\<open>int\<close> (64 bits) is a range error. No caller reads the message of
  the error, which is given without the quoting of the input.
\<close>

definition Atoi :: "string \<Rightarrow> error + int" where
  "Atoi s =
    (let neg = (s \<noteq> [] \<and> hd s = CHR ''-'');
         ds = (if s \<noteq> [] \<and> (hd s = CHR ''-'' \<or> hd s = CHR ''+'') then tl s else s)
     in if ds = [] \<or> \<not> list_all is_digit ds
        then Inl (Errorf (''strconv.Atoi: parsing '' @ s @ '': invalid syntax''))
        else let v = (if neg then - dec_val ds else dec_val ds)
             in if v < - MaxInt64 - 1 \<or> MaxInt64 < v
                then Inl (Errorf (''strconv.Atoi: parsing '' @ s @ '': value out of range''))
                else Inr v)"

section \<open>Package timeparse\<close>

subsection \<open>ParseDuration\<close>



subsection \<open>FormatRelativeTime\<close>

text \<open>
  \<^verbatim>\<open>Duration.Minutes\<close> and \<^verbatim>\<open>Duration.Hours\<close> return \<^verbatim>\<open>float64\<close>. A
  \<^verbatim>\<open>float64\<close> is modelled by the rational it denotes, and every floating-point
  operation by the exact operation followed by \<open>f64\<close>, rounding to the nearest
  value with a 53-bit significand, ties to even. All values that occur lie
  between \<open>2.7e-13\<close> and \<open>2.6e6\<close> in magnitude (or are zero), far from
  the subnormal and the overflow range, which \<open>f64\<close> leaves out.
\<close>

definition pow2 :: "int \<Rightarrow> rat" where
  "pow2 k = (if 0 \<le> k then 2 ^ nat k else 1 / 2 ^ nat (- k))"

definition ilog2 :: "rat \<Rightarrow> int" where
  "ilog2 x = (let (p, q) = quotient_of x; k = bitlen p - bitlen q
              in if pow2 k \<le> x then k else k - 1)"

definition round_half_even :: "rat \<Rightarrow> int" where
  "round_half_even x =
    (let f = \<lfloor>x\<rfloor>; r = x - of_int f
     in if r < 1 / 2 then f else if 1 / 2 < r then f + 1 else if even f then f else f + 1)"

definition f64 :: "rat \<Rightarrow> rat" where
  "f64 x = (if x = 0 then 0
            else let u = pow2 (ilog2 \<bar>x\<bar> - 52) in of_int (round_half_even (x / u)) * u)"

definition Minutes :: "Duration \<Rightarrow> rat" where
  "Minutes d = (let min = go_div d Minute; nsec = go_mod d Minute
                in f64 (of_int min + f64 (of_int nsec / 60000000000)))"

definition Hours :: "Duration \<Rightarrow> rat" where
  "Hours d = (let hour = go_div d Hour; nsec = go_mod d Hour
              in f64 (of_int hour + f64 (of_int nsec / 3600000000000)))"

text \<open>The conversion \<^verbatim>\<open>int(f)\<close> of a \<^verbatim>\<open>float64\<close> drops the fraction.\<close>

definition trunc_int :: "rat \<Rightarrow> int" where
  "trunc_int x = (if 0 \<le> x then \<lfloor>x\<rfloor> else - \<lfloor>- x\<rfloor>)"

definition FormatRelativeTime :: "Duration \<Rightarrow> string" where
  "FormatRelativeTime d =
    (if d < Minute then ''less than a minute''
     else if d < Hour then
       (let minutes = trunc_int (Minutes d)
        in if minutes = 1 then ''1 minute'' else Itoa minutes @ '' minutes'')
     else if d < 24 * Hour then
       (let hours = trunc_int (Hours d)
        in if hours = 1 then ''1 hour'' else Itoa hours @ '' hours'')
     else
       (let days = trunc_int (f64 (Hours d / 24)) in
        if days = 1 then ''1 day''
        else if days \<le> 28 then Itoa days @ '' days''
        else
          (let weeks = go_div days 7 in
           if weeks = 1 then ''1 week''
           else if weeks < 4 then Itoa weeks @ '' weeks''
           else
             (let months = go_div days 30 in
              if months = 1 then ''1 month''
              else if months < 12 then Itoa months @ '' months''
              else
                (let years = go_div days 365 in
                 if years = 1 then ''1 year'' else Itoa years @ '' years'')))))"

section \<open>Package types\<close>

type_synonym Components = "string \<rightharpoonup> string"

record ReleaseId =
  SourceRevision :: string
  PipelineRevision :: string

record ReleaseMetadata =
  ReleaseId :: ReleaseId
  Branch :: string
  Timestamp :: string
  PullRequestID :: int
  ServiceGroup :: string
  ServiceGroupBase :: string

record DeploymentTarget =
  Cloud :: string
  Environment :: string
  RegionConfigs :: "string list"

text \<open>A nil map and an empty map read alike in Go; both are \<open>Map.empty\<close>.\<close>

record ReleaseDeployment =
  Metadata :: ReleaseMetadata
  Target :: DeploymentTarget
  Components :: Components

definition zero_ReleaseDeployment :: ReleaseDeployment where
  "zero_ReleaseDeployment =
    \<lparr>Metadata = \<lparr>ReleaseId = \<lparr>SourceRevision = [], PipelineRevision = []\<rparr>, Branch = [],
                  Timestamp = [], PullRequestID = 0, ServiceGroup = [], ServiceGroupBase = []\<rparr>,
     Target = \<lparr>Cloud = [], Environment = [], RegionConfigs = []\<rparr>,
     Components = Map.empty\<rparr>"

text \<open>The anonymous struct \<open>fileData\<close> of \<open>UnmarshalYAML\<close>, one field per YAML key.\<close>

record fileData =
  fd_Branch :: string
  fd_Timestamp :: string
  fd_PullRequestID :: int
  fd_Revision :: string
  fd_UpstreamRevision :: string
  fd_Cloud :: string
  fd_Environment :: string
  fd_RegionConfigs :: "string list"
  fd_ServiceGroupBase :: string
  fd_ServiceGroup :: string

text \<open>
  A parsed release document: nothing at all, a top-level mapping from keys to values,
  or some other top-level node. An integer scalar is its text in the document and
  the integer the library resolves the text to (\<open>0012\<close> is 10, \<open>0x1F\<close> is 31).
\<close>

datatype yaml_value =
    YNull
  | YStr string
  | YInt string int
  | YSeq "yaml_value list"
  | YMap "(string \<times> yaml_value) list"

datatype yaml_document =
    NoDocument
  | TopMapping "(string \<times> yaml_value) list"
  | TopOther yaml_value

text \<open>
  How the YAML library decodes a value into a field of a Go type: a null leaves the
  field at its zero value; a scalar fills a string field with its text as the
  document has it; only an integer that fits 64 bits fills an \<^verbatim>\<open>int\<close> field;
  only a sequence fills a slice, element by element, and a null element is left
  out of the slice. \<open>None\<close> is a type mismatch.
\<close>

fun decode_string :: "yaml_value \<Rightarrow> string option" where
  "decode_string YNull = Some []"
| "decode_string (YStr s) = Some s"
| "decode_string (YInt txt i) = Some txt"
| "decode_string (YSeq _) = None"
| "decode_string (YMap _) = None"

fun decode_int :: "yaml_value \<Rightarrow> int option" where
  "decode_int YNull = Some 0"
| "decode_int (YInt txt i) = (if - MaxInt64 - 1 \<le> i \<and> i \<le> MaxInt64 then Some i else None)"
| "decode_int _ = None"

fun decode_strings :: "yaml_value \<Rightarrow> string list option" where
  "decode_strings YNull = Some []"
| "decode_strings (YSeq vs) =
     (if list_all (\<lambda>v. decode_string v \<noteq> None) vs
      then Some (map (\<lambda>v. the (decode_string v)) (filter (\<lambda>v. v \<noteq> YNull) vs))
      else None)"
| "decode_strings _ = None"

definition field :: "(yaml_value \<Rightarrow> 'a option) \<Rightarrow> 'a \<Rightarrow> (string \<times> yaml_value) list \<Rightarrow> string \<Rightarrow> 'a option" where
  "field dec zero doc key = (case map_of doc key of None \<Rightarrow> Some zero | Some v \<Rightarrow> dec v)"

text \<open>
  The callback \<open>unmarshal(&fileData)\<close>: each field is filled from the key named by
  its \<^verbatim>\<open>yaml\<close> struct tag; keys that no field names are ignored; a key given twice
  or a type mismatch is an error. The library does not call it without a document.
\<close>

definition unmarshal_fileData :: "yaml_document \<Rightarrow> error + fileData" where
  "unmarshal_fileData doc =
    (case doc of
       NoDocument \<Rightarrow> Inl (Errorf ''EOF'')
     | TopOther _ \<Rightarrow> Inl (Errorf ''yaml: unmarshal errors'')
     | TopMapping m \<Rightarrow>
        if \<not> distinct (map fst m) then Inl (Errorf ''yaml: mapping key already defined'')
        else
         (case (field decode_string [] m ''branch'', field decode_string [] m ''timestamp'',
                field decode_int 0 m ''pullRequestId'', field decode_string [] m ''revision'',
                field decode_string [] m ''upstreamRevision'', field decode_string [] m ''cloud'',
                field decode_string [] m ''environment'', field decode_strings [] m ''regionConfigs'',
                field decode_string [] m ''serviceGroupBase'', field decode_string [] m ''serviceGroup'') of
            (Some b, Some t, Some pr, Some r, Some ur, Some c, Some e, Some rc, Some sgb, Some sg) \<Rightarrow>
              Inr \<lparr>fd_Branch = b, fd_Timestamp = t, fd_PullRequestID = pr, fd_Revision = r,
                   fd_UpstreamRevision = ur, fd_Cloud = c, fd_Environment = e, fd_RegionConfigs = rc,
                   fd_ServiceGroupBase = sgb, fd_ServiceGroup = sg\<rparr>
          | _ \<Rightarrow> Inl (Errorf ''yaml: unmarshal errors'')))"

text \<open>\<open>UnmarshalYAML\<close>; its argument is the outcome of the callback on \<open>fileData\<close>.\<close>

definition UnmarshalYAML :: "error + fileData \<Rightarrow> error + ReleaseDeployment" where
  "UnmarshalYAML unmarshal =
    (case unmarshal of
       Inl err \<Rightarrow> Inl err
     | Inr fileData \<Rightarrow>
        Inr \<lparr>Metadata =
               \<lparr>ReleaseId = \<lparr>SourceRevision = fd_UpstreamRevision fileData,
                              PipelineRevision = fd_Revision fileData\<rparr>,
                Branch = fd_Branch fileData,
                Timestamp = fd_Timestamp fileData,
                PullRequestID = fd_PullRequestID fileData,
                ServiceGroup = fd_ServiceGroup fileData,
                ServiceGroupBase = fd_ServiceGroupBase fileData\<rparr>,
             Target =
               \<lparr>Cloud = fd_Cloud fileData,
                Environment = fd_Environment fileData,
                RegionConfigs = fd_RegionConfigs fileData\<rparr>,
             Components = Map.empty\<rparr>)"

text \<open>
  \<^verbatim>\<open>yaml.Unmarshal(content, &deployment)\<close> on a parsed document: the library
  calls \<open>UnmarshalYAML\<close> on the top-level node, except that an empty or null
  document leaves the deployment untouched.
\<close>

definition decode_ReleaseDeployment :: "yaml_document \<Rightarrow> error + ReleaseDeployment" where
  "decode_ReleaseDeployment doc =
    (case doc of
       NoDocument \<Rightarrow> Inr zero_ReleaseDeployment
     | TopOther YNull \<Rightarrow> Inr zero_ReleaseDeployment
     | _ \<Rightarrow> UnmarshalYAML (unmarshal_fileData doc))"

section \<open>Package list\<close>

text \<open>
  A \<^verbatim>\<open>time.Time\<close> is the instant it denotes, in nanoseconds since the zero time
  (January 1, year 1, 00:00:00 UTC), so that \<open>IsZero\<close> is equality with 0.
\<close>

type_synonym Time = int

definition IsZero :: "Time \<Rightarrow> bool" where
  "IsZero t = (t = 0)"

definition Add :: "Time \<Rightarrow> Duration \<Rightarrow> Time" where
  "Add t d = t + d"

definition After :: "Time \<Rightarrow> Time \<Rightarrow> bool" where
  "After t u = (u < t)"

text \<open>A context carries a logger or not; \<^verbatim>\<open>logr.FromContext\<close> fails without one.\<close>

datatype Context = NoLogger | WithLogger

definition FromContext :: "Context \<Rightarrow> error + unit" where
  "FromContext ctx =
    (case ctx of NoLogger \<Rightarrow> Inl (Errorf ''no logr.Logger was present'') | WithLogger \<Rightarrow> Inr ())"

text \<open>The storage service: what the Azure SDK client returns to the two calls made.\<close>

record FilterBlobItem =
  ContainerName :: string
  Name :: string
  Tags :: "(string option \<times> string option) list option"

record FilterBlobsResponse =
  Blobs :: "FilterBlobItem list"
  NextMarker :: "string option"

record service_Client =
  FilterBlobs :: "string \<Rightarrow> string option \<Rightarrow> error + FilterBlobsResponse"
  DownloadStream :: "string \<Rightarrow> string \<Rightarrow> error + (error + string)"

record blobWithTime =
  containerName :: string
  name :: string
  tags :: "string \<rightharpoonup> string"
  timestamp :: Time

text \<open>
  A YAML node tree, as \<^verbatim>\<open>yaml.Node\<close> has it: the content of a mapping node is
  its keys and values in alternation.
\<close>

datatype Kind = DocumentNode | SequenceNode | MappingNode | ScalarNode | AliasNode

datatype Node = Node (Kind: Kind) (Tag: string) (Value: string) (Content: "Node list")

text \<open>
  The functions of the standard library and of third-party packages that the code
  calls and this repository does not define.
\<close>

record Lib =
  Format_RFC3339 :: "Time \<Rightarrow> string"
  Parse_RFC3339 :: "string \<Rightarrow> error + Time"
  sort_Slice :: "(blobWithTime \<Rightarrow> blobWithTime \<Rightarrow> bool) \<Rightarrow> blobWithTime list \<Rightarrow> blobWithTime list"
  yaml_release :: "string \<Rightarrow> error + yaml_document"
  yaml_node :: "string \<Rightarrow> error + Node"
  KebabCase :: "string \<Rightarrow> string"
  filepath_Dir :: "string \<Rightarrow> string"

definition ReleaseFileName :: string where "ReleaseFileName = ''release.yaml''"
definition ConfigFileName :: string where "ConfigFileName = ''config.yaml''"

record list_Options =
  ServiceClient :: service_Client
  opt_Environment :: string
  Since :: Time
  Until :: Time
  opt_ServiceGroupBase :: string
  opt_PipelineRevision :: string
  opt_SourceRevision :: string
  StorageAccountURI :: string
  StorageContainerName :: string
  IncludeComponents :: bool
  Limit :: int

text \<open>A Go slice is nil or holds elements; \<open>len\<close> of a nil slice is 0.\<close>

datatype 'a slice = NilSlice | Slice "'a list"

fun elems :: "'a slice \<Rightarrow> 'a list" where
  "elems NilSlice = []"
| "elems (Slice xs) = xs"

subsection \<open>Strings\<close>

definition HasSuffix :: "string \<Rightarrow> string \<Rightarrow> bool" where
  "HasSuffix s suffix =
    (length suffix \<le> length s \<and> drop (length s - length suffix) s = suffix)"

definition TrimPrefix :: "string \<Rightarrow> string \<Rightarrow> string" where
  "TrimPrefix s prefix =
    (if length prefix \<le> length s \<and> take (length prefix) s = prefix then drop (length prefix) s else s)"

fun Join :: "string list \<Rightarrow> string \<Rightarrow> string" where
  "Join [] sep = []"
| "Join [x] sep = x"
| "Join (x # y # ys) sep = x @ sep @ Join (y # ys) sep"

subsection \<open>buildODataFilter\<close>

record filter_item =
  key :: string
  val :: string
  operator :: string
  enabled :: bool

definition buildODataFilter :: "Lib \<Rightarrow> Context \<Rightarrow> list_Options \<Rightarrow> error + string" where
  "buildODataFilter L ctx opts =
    (case FromContext ctx of
       Inl err \<Rightarrow> Inl (Wrap ''failed to get logger'' err)
     | Inr _ \<Rightarrow>
        (let filters =
           [\<lparr>key = ''environment'', val = opt_Environment opts, operator = ''='', enabled = True\<rparr>,
            \<lparr>key = ''serviceGroupBase'', val = opt_ServiceGroupBase opts, operator = ''='', enabled = True\<rparr>,
            \<lparr>key = ''timestamp'', val = Format_RFC3339 L (Since opts), operator = ''>='', enabled = True\<rparr>,
            \<lparr>key = ''timestamp'', val = Format_RFC3339 L (Until opts), operator = ''<'', enabled = True\<rparr>,
            \<lparr>key = ''serviceGroup'', val = [], operator = ''>='', enabled = True\<rparr>,
            \<lparr>key = ''revision'', val = opt_PipelineRevision opts, operator = ''='',
             enabled = (opt_PipelineRevision opts \<noteq> [])\<rparr>,
            \<lparr>key = ''upstreamRevision'', val = opt_SourceRevision opts, operator = ''='',
             enabled = (opt_SourceRevision opts \<noteq> [])\<rparr>];
           filter =
             foldl (\<lambda>filter item.
                      if enabled item
                      then filter @ [[CHR 0x22] @ key item @ [CHR 0x22] @ operator item
                                     @ [CHR 0x27] @ val item @ [CHR 0x27]]
                      else filter)
                   [''@container='' @ [CHR 0x27] @ StorageContainerName opts @ [CHR 0x27]] filters
         in Inr (Join filter '' AND '')))"

subsection \<open>downloadAndParseComponents\<close>

text \<open>
  The closure \<open>walk\<close>, with the \<open>components\<close> map it updates passed along. The
  mapping loop reads \<open>Content[i+1]\<close>; on a key without a value this index is out of
  range and the program panics: \<open>None\<close>.
\<close>

fun walk :: "(string \<Rightarrow> string) \<Rightarrow> Node \<Rightarrow> string list \<Rightarrow> Components \<Rightarrow> Components option"
  and walk_mapping :: "(string \<Rightarrow> string) \<Rightarrow> Node list \<Rightarrow> string list \<Rightarrow> Components \<Rightarrow> Components option"
  and walk_sequence :: "(string \<Rightarrow> string) \<Rightarrow> Node list \<Rightarrow> int \<Rightarrow> string list \<Rightarrow> Components \<Rightarrow> Components option"
where
  "walk kebab (Node k t v cs) path components =
    (case k of
       MappingNode \<Rightarrow> walk_mapping kebab cs path components
     | SequenceNode \<Rightarrow> walk_sequence kebab cs 0 path components
     | ScalarNode \<Rightarrow>
        if t \<noteq> ''!!str'' \<or> v = [] then Some components
        else if length path = 0 then Some components
        else Some (components(Join (map kebab (butlast path)) ''.'' \<mapsto> TrimPrefix v ''sha256:''))
     | _ \<Rightarrow> Some components)"
| "walk_mapping kebab [] path components = Some components"
| "walk_mapping kebab [keyNode] path components = None"
| "walk_mapping kebab (keyNode # valNode # rest) path components =
    (case walk kebab valNode (path @ [Value keyNode]) components of
       None \<Rightarrow> None
     | Some components' \<Rightarrow> walk_mapping kebab rest path components')"
| "walk_sequence kebab [] i path components = Some components"
| "walk_sequence kebab (valNode # rest) i path components =
    (case walk kebab valNode (path @ [Itoa i]) components of
       None \<Rightarrow> None
     | Some components' \<Rightarrow> walk_sequence kebab rest (i + 1) path components')"

definition downloadAndParseComponents ::
  "Lib \<Rightarrow> Context \<Rightarrow> list_Options \<Rightarrow> string \<Rightarrow> string \<Rightarrow> (error + Components) option" where
  "downloadAndParseComponents L ctx opts releasePath region =
    (case FromContext ctx of
       Inl err \<Rightarrow> Some (Inl (Wrap ''failed to get logger'' err))
     | Inr _ \<Rightarrow>
        (let blobName = Join [filepath_Dir L releasePath, region, ConfigFileName] ''/'' in
         case DownloadStream (ServiceClient opts) (StorageContainerName opts) blobName of
           Inl err \<Rightarrow> Some (Inl (Wrap ''failed to download config'' err))
         | Inr (Inl err) \<Rightarrow> Some (Inl (Wrap ''failed to read config'' err))
         | Inr (Inr content) \<Rightarrow>
            (case yaml_node L content of
               Inl err \<Rightarrow> Some (Inl (Wrap ''failed to parse YAML'' err))
             | Inr root' \<Rightarrow>
                if length (Content root') = 0 then Some (Inl (Errorf ''parsed YAML document is empty''))
                else (case walk (KebabCase L) (Content root' ! 0) [] Map.empty of
                        None \<Rightarrow> None
                      | Some components \<Rightarrow> Some (Inr components)))))"

subsection \<open>downloadAndParseRelease\<close>

definition downloadAndParseRelease ::
  "Lib \<Rightarrow> Context \<Rightarrow> list_Options \<Rightarrow> string \<Rightarrow> (error + ReleaseDeployment) option" where
  "downloadAndParseRelease L ctx opts blobName =
    (case FromContext ctx of
       Inl err \<Rightarrow> Some (Inl (Wrap ''failed to get logger'' err))
     | Inr _ \<Rightarrow>
        (case DownloadStream (ServiceClient opts) (StorageContainerName opts) blobName of
           Inl err \<Rightarrow> Some (Inl (Wrap ''failed to download blob'' err))
         | Inr (Inl err) \<Rightarrow> Some (Inl (Wrap ''failed to read blob content'' err))
         | Inr (Inr content) \<Rightarrow>
            (case (case yaml_release L content of Inl err \<Rightarrow> Inl err
                   | Inr doc \<Rightarrow> decode_ReleaseDeployment doc) of
               Inl err \<Rightarrow> Some (Inl (Wrap ''failed to unmarshal YAML'' err))
             | Inr deployment \<Rightarrow>
                if IncludeComponents opts \<and> length (RegionConfigs (Target deployment)) > 0
                then (case downloadAndParseComponents L ctx opts blobName
                             (RegionConfigs (Target deployment) ! 0) of
                        None \<Rightarrow> None
                      | Some (Inl err) \<Rightarrow>
                         Some (Inl (Wrap ''failed to download and parse components'' err))
                      | Some (Inr components) \<Rightarrow>
                         Some (Inr (deployment\<lparr>Components := components\<rparr>)))
                else Some (Inr deployment))))"

subsection \<open>ListReleaseDeployments\<close>

text \<open>
  The body of the loop over the blobs of one response: \<open>None\<close> where the source
  continues with the next blob, the candidate it appends otherwise.
\<close>

definition blob_tags :: "FilterBlobItem \<Rightarrow> string \<rightharpoonup> string" where
  "blob_tags blob =
    (case Tags blob of
       None \<Rightarrow> Map.empty
     | Some tagset \<Rightarrow>
        foldl (\<lambda>tags' tag. case tag of (Some k, Some v) \<Rightarrow> tags'(k \<mapsto> v) | _ \<Rightarrow> tags')
              Map.empty tagset)"

definition collect_blob :: "Lib \<Rightarrow> FilterBlobItem \<Rightarrow> blobWithTime option" where
  "collect_blob L blob =
    (if \<not> HasSuffix (Name blob) (''/'' @ ReleaseFileName) then None
     else
      (let tags' = blob_tags blob in
       case tags' ''timestamp'' of
         None \<Rightarrow> None
       | Some timestampStr \<Rightarrow>
          (case Parse_RFC3339 L timestampStr of
             Inl err \<Rightarrow> None
           | Inr timestamp' \<Rightarrow>
              Some \<lparr>containerName = ContainerName blob, name = Name blob,
                    tags = tags', timestamp = timestamp'\<rparr>)))"

definition collect_blobs :: "Lib \<Rightarrow> FilterBlobItem list \<Rightarrow> blobWithTime list \<Rightarrow> blobWithTime list" where
  "collect_blobs L page blobs =
    foldl (\<lambda>blobs blob. case collect_blob L blob of None \<Rightarrow> blobs | Some b \<Rightarrow> blobs @ [b])
          blobs page"

text \<open>
  The pagination loop. It ends when a response carries no marker or an empty one, or
  when a request fails; nothing bounds the number of pages, so it is a partial
  function.
\<close>

partial_function (option) filter_blobs ::
  "Lib \<Rightarrow> service_Client \<Rightarrow> string \<Rightarrow> string option \<Rightarrow> blobWithTime list
     \<Rightarrow> (error + blobWithTime list) option" where
  "filter_blobs L client tagFilter marker blobs =
    (case FilterBlobs client tagFilter marker of
       Inl err \<Rightarrow> Some (Inl (Wrap ''failed to filter blobs'' err))
     | Inr resp \<Rightarrow>
        (if NextMarker resp = None \<or> length (the (NextMarker resp)) = 0
         then Some (Inr (collect_blobs L (Blobs resp) blobs))
         else filter_blobs L client tagFilter (NextMarker resp) (collect_blobs L (Blobs resp) blobs)))"

declare filter_blobs.simps [code]

text \<open>Sorting by descending timestamp and cutting to the limit.\<close>

definition blob_less :: "blobWithTime \<Rightarrow> blobWithTime \<Rightarrow> bool" where
  "blob_less a b = After (timestamp a) (timestamp b)"

definition sort_and_limit :: "Lib \<Rightarrow> list_Options \<Rightarrow> blobWithTime list \<Rightarrow> blobWithTime list" where
  "sort_and_limit L opts blobs =
    (let sorted = sort_Slice L blob_less blobs
     in if Limit opts > 0 \<and> Limit opts < int (length sorted)
        then take (nat (Limit opts)) sorted else sorted)"

text \<open>The loop that downloads and parses each release.\<close>

fun parse_releases ::
  "Lib \<Rightarrow> Context \<Rightarrow> list_Options \<Rightarrow> blobWithTime list \<Rightarrow> ReleaseDeployment list
     \<Rightarrow> ReleaseDeployment list option" where
  "parse_releases L ctx opts [] deployments = Some deployments"
| "parse_releases L ctx opts (blob # blobs) deployments =
    (case downloadAndParseRelease L ctx opts (name blob) of
       None \<Rightarrow> None
     | Some (Inl err) \<Rightarrow> parse_releases L ctx opts blobs deployments
     | Some (Inr deployment) \<Rightarrow> parse_releases L ctx opts blobs (deployments @ [deployment]))"

definition ListReleaseDeployments ::
  "Lib \<Rightarrow> Context \<Rightarrow> list_Options \<Rightarrow> (error + ReleaseDeployment slice) option" where
  "ListReleaseDeployments L ctx opts =
    (case FromContext ctx of
       Inl err \<Rightarrow> Some (Inl (Wrap ''failed to get logger'' err))
     | Inr _ \<Rightarrow>
        (case buildODataFilter L ctx opts of
           Inl err \<Rightarrow> Some (Inl (Wrap ''failed to build filter'' err))
         | Inr tagFilter \<Rightarrow>
            (case filter_blobs L (ServiceClient opts) tagFilter None [] of
               None \<Rightarrow> None
             | Some (Inl err) \<Rightarrow> Some (Inl err)
             | Some (Inr blobs) \<Rightarrow>
                if length blobs = 0 then Some (Inr (Slice []))
                else (case parse_releases L ctx opts (sort_and_limit L opts blobs) [] of
                        None \<Rightarrow> None
                      | Some deployments \<Rightarrow> Some (Inr (Slice deployments))))))"

section \<open>Package last\<close>

record last_Options =
  ListOptions :: list_Options
  Step :: Duration
  MaxLookback :: Duration

text \<open>
  The loop of \<open>LastReleaseDeployment\<close>. Its state is the offset and the shared list
  options, whose window each iteration overwrites; \<open>queried\<close> records the windows
  for which \<open>ListReleaseDeployments\<close> has been called. The offset is an
  \<^verbatim>\<open>int64\<close>, so the loop need not end.
\<close>

partial_function (option) search_back ::
  "Lib \<Rightarrow> Context \<Rightarrow> Duration \<Rightarrow> Duration \<Rightarrow> Time \<Rightarrow> Duration \<Rightarrow> list_Options \<Rightarrow> (Time \<times> Time) list
     \<Rightarrow> ((error + ReleaseDeployment) \<times> list_Options \<times> (Time \<times> Time) list) option" where
  "search_back L ctx step maxLookback end' offset lo queried =
    (if offset < maxLookback
     then
      (let windowUntil = Add end' (wrap64 (- offset));
           windowSince = Add windowUntil (wrap64 (- step));
           lo' = lo\<lparr>Since := windowSince, Until := windowUntil\<rparr>;
           queried' = queried @ [(windowSince, windowUntil)]
       in case ListReleaseDeployments L ctx lo' of
            None \<Rightarrow> None
          | Some (Inl err) \<Rightarrow> Some (Inl err, lo', queried')
          | Some (Inr deployments) \<Rightarrow>
             if length (elems deployments) > 0
             then Some (Inr (elems deployments ! 0), lo', queried')
             else search_back L ctx step maxLookback end' (wrap64 (offset + step)) lo' queried')
     else Some (Inl ErrNoDeploymentsFound, lo, queried))"

declare search_back.simps [code]

text \<open>
  \<open>LastReleaseDeployment\<close>, with the current instant \<open>now\<close> as a parameter. The
  deferred function restores the window whatever the loop returned. The result is
  the returned pair, the options as the caller finds them afterwards, and the
  windows queried.
\<close>

definition LastReleaseDeployment ::
  "Lib \<Rightarrow> Context \<Rightarrow> Time \<Rightarrow> last_Options
     \<Rightarrow> ((error + ReleaseDeployment) \<times> last_Options \<times> (Time \<times> Time) list) option" where
  "LastReleaseDeployment L ctx now o' =
    (let end' = (if IsZero (Until (ListOptions o')) then now else Until (ListOptions o'));
         origSince = Since (ListOptions o');
         origUntil = Until (ListOptions o')
     in case search_back L ctx (Step o') (MaxLookback o') end' 0 (ListOptions o') [] of
          None \<Rightarrow> None
        | Some (result, lo, queried) \<Rightarrow>
           Some (result, o'\<lparr>ListOptions := lo\<lparr>Since := origSince, Until := origUntil\<rparr>\<rparr>, queried))"

text \<open>\<open>Validate\<close> of package \<^verbatim>\<open>last\<close>, the checks on the two durations.\<close>

definition Validate_durations :: "last_Options \<Rightarrow> error + unit" where
  "Validate_durations o' =
    (if Step o' \<le> 0 then Inl (Errorf ''step must be greater than zero'')
     else if MaxLookback o' \<le> 0 then Inl (Errorf ''max-lookback must be greater than zero'')
     else if MaxLookback o' < Step o'
       then Inl (Errorf ''max-lookback must be greater than or equal to step'')
     else Inr ())"

section \<open>Reference notions used in the statements\<close>



text \<open>
  Two release documents that differ only in the names of the two revision fields,
  and the \<open>ReleaseId\<close> that decoding produces.
\<close>

definition canonical_doc :: yaml_document where
  "canonical_doc = TopMapping [(''branch'', YStr ''main''), (''sourceRevision'', YStr ''abc123''),
                               (''pipelineRevision'', YStr ''def456'')]"

definition legacy_doc :: yaml_document where
  "legacy_doc = TopMapping [(''branch'', YStr ''main''), (''upstreamRevision'', YStr ''abc123''),
                            (''revision'', YStr ''def456'')]"

definition decoded_ReleaseId :: "yaml_document \<Rightarrow> error + ReleaseId" where
  "decoded_ReleaseId doc = map_sum id (\<lambda>d. ReleaseId (Metadata d)) (decode_ReleaseDeployment doc)"

text \<open>
  The text a mapping gives for a key: that of the scalar under the key, empty when
  the key is absent or its value is null.
\<close>

definition scalar_text :: "yaml_value \<Rightarrow> string" where
  "scalar_text v = (case v of YStr s \<Rightarrow> s | YInt txt i \<Rightarrow> txt | _ \<Rightarrow> [])"

definition legacy_field :: "(string \<times> yaml_value) list \<Rightarrow> string \<Rightarrow> string" where
  "legacy_field m k = (case map_of m k of None \<Rightarrow> [] | Some v \<Rightarrow> scalar_text v)"

text \<open>A mapping with the two canonical field names taken out.\<close>

definition without_canonical_names :: "(string \<times> yaml_value) list \<Rightarrow> (string \<times> yaml_value) list" where
  "without_canonical_names m =
    filter (\<lambda>kv. fst kv \<noteq> ''sourceRevision'' \<and> fst kv \<noteq> ''pipelineRevision'') m"

text \<open>A clause of the filter expression: \<^verbatim>\<open>"<key>"<op>'<value>'\<close>.\<close>

definition clause :: "string \<Rightarrow> string \<Rightarrow> string \<Rightarrow> string" where
  "clause k op v = [CHR 0x22] @ k @ [CHR 0x22] @ op @ [CHR 0x27] @ v @ [CHR 0x27]"

text \<open>
  The complete listing that the storage service gives for a filter, from a marker
  on: the blobs of the successive pages, up to a page without a marker.
\<close>

inductive listed :: "service_Client \<Rightarrow> string \<Rightarrow> string option \<Rightarrow> FilterBlobItem list \<Rightarrow> bool"
  for client :: service_Client and tagFilter :: string where
  last_page:
    "FilterBlobs client tagFilter marker = Inr resp \<Longrightarrow>
     NextMarker resp = None \<or> NextMarker resp = Some [] \<Longrightarrow>
     listed client tagFilter marker (Blobs resp)"
| next_page:
    "FilterBlobs client tagFilter marker = Inr resp \<Longrightarrow>
     NextMarker resp = Some m \<Longrightarrow> m \<noteq> [] \<Longrightarrow>
     listed client tagFilter (Some m) entries \<Longrightarrow>
     listed client tagFilter marker (Blobs resp @ entries)"

text \<open>
  An entry is eligible when its name ends in the release file name and it carries a
  \<open>timestamp\<close> tag that parses as a timestamp; \<open>candidate_of\<close> is the candidate
  made of an eligible entry.
\<close>

definition eligible :: "Lib \<Rightarrow> FilterBlobItem \<Rightarrow> bool" where
  "eligible L e =
    (HasSuffix (Name e) ''/release.yaml''
     \<and> (case blob_tags e ''timestamp'' of
          None \<Rightarrow> False
        | Some s \<Rightarrow> (case Parse_RFC3339 L s of Inl err \<Rightarrow> False | Inr t \<Rightarrow> True)))"

definition candidate_of :: "Lib \<Rightarrow> FilterBlobItem \<Rightarrow> blobWithTime" where
  "candidate_of L e =
    \<lparr>containerName = ContainerName e, name = Name e, tags = blob_tags e,
     timestamp = projr (Parse_RFC3339 L (the (blob_tags e ''timestamp'')))\<rparr>"

definition eligible_candidates :: "Lib \<Rightarrow> FilterBlobItem list \<Rightarrow> blobWithTime list" where
  "eligible_candidates L entries = map (candidate_of L) (filter (eligible L) entries)"


definition resolved :: "Lib \<Rightarrow> Context \<Rightarrow> list_Options \<Rightarrow> blobWithTime \<Rightarrow> ReleaseDeployment list" where
  "resolved L ctx opts b =
    (case downloadAndParseRelease L ctx opts (name b) of Some (Inr d) \<Rightarrow> [d] | _ \<Rightarrow> [])"

text \<open>
  The candidates a call fetches for given options, and what it means for a
  deployment to be the most recent one that the call can resolve: it is the
  deployment of a fetched candidate, and no fetched candidate with a later
  timestamp resolves to a deployment.
\<close>

definition fetched :: "Lib \<Rightarrow> Context \<Rightarrow> list_Options \<Rightarrow> blobWithTime list" where
  "fetched L ctx opts =
    (case buildODataFilter L ctx opts of
       Inl err \<Rightarrow> []
     | Inr tagFilter \<Rightarrow>
        (case filter_blobs L (ServiceClient opts) tagFilter None [] of
           Some (Inr blobs) \<Rightarrow> blobs
         | _ \<Rightarrow> []))"

definition most_recent_resolved :: "Lib \<Rightarrow> Context \<Rightarrow> list_Options \<Rightarrow> ReleaseDeployment \<Rightarrow> bool" where
  "most_recent_resolved L ctx opts d =
    (\<exists>b\<in>set (fetched L ctx opts).
        resolved L ctx opts b = [d]
        \<and> (\<forall>c\<in>set (fetched L ctx opts). timestamp b < timestamp c \<longrightarrow> resolved L ctx opts c = []))"


text \<open>
  A small world for concrete runs. Instants are written as decimal numbers, the
  sort is an insertion sort, key segments are left as they are, and the directory
  of a path is what precedes its last slash. The service lists six blobs on two
  pages; three of them are eligible.
\<close>

definition dir_of :: "string \<Rightarrow> string" where
  "dir_of p = rev (tl (dropWhile (\<lambda>c. c \<noteq> CHR ''/'') (rev p)))"

definition scalar_root :: Node where
  "scalar_root = Node DocumentNode [] [] [Node ScalarNode ''!!str'' ''sha256:deadbeef'' []]"

definition empty_root :: Node where
  "empty_root = Node DocumentNode [] [] []"

definition str_node :: "string \<Rightarrow> Node" where
  "str_node v = Node ScalarNode ''!!str'' v []"

definition components_root :: Node where
  "components_root =
    Node DocumentNode [] []
      [Node MappingNode ''!!map'' []
        [str_node ''a'',
         Node MappingNode ''!!map'' []
           [str_node ''b'',
            Node MappingNode ''!!map'' []
              [str_node ''digest'', str_node ''sha256:deadbeef'']]]]"

definition release_doc :: "string \<Rightarrow> yaml_document" where
  "release_doc revision =
    TopMapping
      [(''branch'', YStr ''main''), (''timestamp'', YStr ''2025-09-21T00:38:14Z''),
       (''pullRequestId'', YInt ''13525689'' 13525689), (''revision'', YStr revision),
       (''upstreamRevision'', YStr ''43697e5fa59a''), (''cloud'', YStr ''public''),
       (''environment'', YStr ''int''), (''regionConfigs'', YSeq [YStr ''uksouth'']),
       (''serviceGroupBase'', YStr ''Microsoft.Azure.ARO.HCP''),
       (''serviceGroup'', YStr ''Microsoft.Azure.ARO.HCP.Global'')]"

definition deployment_ex :: "string \<Rightarrow> Components \<Rightarrow> ReleaseDeployment" where
  "deployment_ex revision comps =
    \<lparr>Metadata =
       \<lparr>ReleaseId = \<lparr>SourceRevision = ''43697e5fa59a'', PipelineRevision = revision\<rparr>,
        Branch = ''main'', Timestamp = ''2025-09-21T00:38:14Z'', PullRequestID = 13525689,
        ServiceGroup = ''Microsoft.Azure.ARO.HCP.Global'',
        ServiceGroupBase = ''Microsoft.Azure.ARO.HCP''\<rparr>,
     Target = \<lparr>Cloud = ''public'', Environment = ''int'', RegionConfigs = [''uksouth'']\<rparr>,
     Components = comps\<rparr>"

fun insert_by :: "('a \<Rightarrow> 'a \<Rightarrow> bool) \<Rightarrow> 'a \<Rightarrow> 'a list \<Rightarrow> 'a list" where
  "insert_by lt x [] = [x]"
| "insert_by lt x (y # ys) = (if lt y x then y # insert_by lt x ys else x # y # ys)"

definition sort_by :: "('a \<Rightarrow> 'a \<Rightarrow> bool) \<Rightarrow> 'a list \<Rightarrow> 'a list" where
  "sort_by lt xs = foldr (insert_by lt) xs []"

definition L_ex :: Lib where
  "L_ex = \<lparr>Format_RFC3339 = Itoa, Parse_RFC3339 = Atoi, sort_Slice = sort_by,
           yaml_release = (\<lambda>content. if content = ''release-1'' then Inr (release_doc ''000779a1'')
                                      else if content = ''release-6'' then Inr (release_doc ''000779a6'')
                                      else Inl (Errorf ''yaml: did not find expected key'')),
           yaml_node = (\<lambda>content. if content = ''sha256:deadbeef'' then Inr scalar_root
                                   else if content = [] then Inr empty_root
                                   else if content = ''components-6'' then Inr components_root
                                   else Inl (Errorf ''yaml: did not find expected key'')),
           KebabCase = id, filepath_Dir = dir_of\<rparr>"

definition entry :: "string \<Rightarrow> (string \<times> string) list \<Rightarrow> FilterBlobItem" where
  "entry n ts = \<lparr>ContainerName = ''releases'', Name = n,
                 Tags = Some (map (\<lambda>kv. (Some (fst kv), Some (snd kv))) ts)\<rparr>"

definition page_1 :: "FilterBlobItem list" where
  "page_1 = [entry ''r1/release.yaml'' [(''timestamp'', ''300'')],
             entry ''r3/release.yaml'' [(''environment'', ''int'')],
             entry ''r5/other.yaml'' [(''timestamp'', ''500'')]]"

definition page_2 :: "FilterBlobItem list" where
  "page_2 = [entry ''r4/release.yaml'' [(''timestamp'', ''yesterday'')],
             entry ''r2/release.yaml'' [(''timestamp'', ''200'')],
             entry ''r6/release.yaml'' [(''timestamp'', ''400'')]]"

definition client_releases :: service_Client where
  "client_releases =
    \<lparr>FilterBlobs = (\<lambda>tagFilter marker.
        if marker = None then Inr \<lparr>Blobs = page_1, NextMarker = Some ''page-2''\<rparr>
        else if marker = Some ''page-2'' then Inr \<lparr>Blobs = page_2, NextMarker = None\<rparr>
        else Inl (Errorf ''InvalidQueryParameterValue'')),
     DownloadStream = (\<lambda>container blobName.
        if blobName = ''r1/release.yaml'' then Inr (Inr ''release-1'')
        else if blobName = ''r2/release.yaml'' then Inr (Inr ''{'')
        else if blobName = ''r6/release.yaml'' then Inr (Inr ''release-6'')
        else if blobName = ''r6/uksouth/config.yaml'' then Inr (Inr ''components-6'')
        else Inl (Errorf ''BlobNotFound''))\<rparr>"

definition client_configs :: service_Client where
  "client_configs =
    \<lparr>FilterBlobs = (\<lambda>tagFilter marker. Inr \<lparr>Blobs = [], NextMarker = None\<rparr>),
     DownloadStream = (\<lambda>container blobName.
        if blobName = ''r1/uksouth/config.yaml'' then Inr (Inr ''sha256:deadbeef'')
        else if blobName = ''r2/uksouth/config.yaml'' then Inr (Inr [])
        else Inl (Errorf ''BlobNotFound''))\<rparr>"



definition opts_ex :: "service_Client \<Rightarrow> list_Options" where
  "opts_ex client =
    \<lparr>ServiceClient = client, opt_Environment = ''int'', Since = 100, Until = 200,
     opt_ServiceGroupBase = ''Microsoft.Azure.ARO.HCP'', opt_PipelineRevision = [],
     opt_SourceRevision = [], StorageAccountURI = ''https://aroreleases.blob.core.windows.net/'',
     StorageContainerName = ''releases'', IncludeComponents = True, Limit = 0\<rparr>"


text \<open>
  The backward search in the words of its description: the anchor, the number
  \<open>\<lceil>maxLookback / step\<rceil>\<close> of iterations, the window of iteration \<open>k\<close>, the
  query for a window, and the search that queries the windows \<open>k, k + 1, \<dots>\<close>
  in turn, at most \<open>n\<close> of them, stops at the first query that fails or finds
  deployments, and reports the windows it has queried.
\<close>

definition anchor_of :: "Time \<Rightarrow> last_Options \<Rightarrow> Time" where
  "anchor_of now o' = (if Until (ListOptions o') = 0 then now else Until (ListOptions o'))"

definition iterations :: "last_Options \<Rightarrow> nat" where
  "iterations o' = nat \<lceil>(of_int (MaxLookback o') :: rat) / of_int (Step o')\<rceil>"

definition window :: "Time \<Rightarrow> Duration \<Rightarrow> nat \<Rightarrow> Time \<times> Time" where
  "window anchor step k = (anchor - (int k + 1) * step, anchor - int k * step)"

definition query :: "Lib \<Rightarrow> Context \<Rightarrow> list_Options \<Rightarrow> Time \<times> Time \<Rightarrow> (error + ReleaseDeployment slice) option" where
  "query L ctx lo w = ListReleaseDeployments L ctx (lo\<lparr>Since := fst w, Until := snd w\<rparr>)"

fun search_windows ::
  "(Time \<times> Time \<Rightarrow> (error + ReleaseDeployment slice) option) \<Rightarrow> Time \<Rightarrow> Duration \<Rightarrow> nat \<Rightarrow> nat
     \<Rightarrow> ((error + ReleaseDeployment) \<times> (Time \<times> Time) list) option" where
  "search_windows q anchor step 0 k = Some (Inl ErrNoDeploymentsFound, [])"
| "search_windows q anchor step (Suc n) k =
    (case q (window anchor step k) of
       None \<Rightarrow> None
     | Some (Inl err) \<Rightarrow> Some (Inl err, [window anchor step k])
     | Some (Inr ds) \<Rightarrow>
        (case elems ds of
           d # _ \<Rightarrow> Some (Inr d, [window anchor step k])
         | [] \<Rightarrow> map_option (\<lambda>(r, ws). (r, window anchor step k # ws))
                  (search_windows q anchor step n (Suc k))))"

text \<open>
  A service that lists one release for the window from 800 to 900 and nothing for
  any other, and options for the search whose window ends at the instant 1000.
\<close>

definition client_window :: service_Client where
  "client_window =
    \<lparr>FilterBlobs = (\<lambda>tagFilter marker.
        if Inr tagFilter = buildODataFilter L_ex WithLogger ((opts_ex client_configs)\<lparr>Since := 800, Until := 900\<rparr>)
        then Inr \<lparr>Blobs = [entry ''r6/release.yaml'' [(''timestamp'', ''850'')]], NextMarker = None\<rparr>
        else Inr \<lparr>Blobs = [], NextMarker = None\<rparr>),
     DownloadStream = DownloadStream client_releases\<rparr>"

definition last_ex :: "service_Client \<Rightarrow> Duration \<Rightarrow> Duration \<Rightarrow> last_Options" where
  "last_ex client step maxLookback =
    \<lparr>ListOptions = (opts_ex client)\<lparr>Since := 300, Until := 1000\<rparr>, Step = step, MaxLookback = maxLookback\<rparr>"

section \<open>Properties\<close>

subsection \<open>ParseDuration\<close>















subsection \<open>FormatRelativeTime\<close>

text \<open>
  Claim C2 at its three named durations: 24 hours and 28 days are formatted as the
  claim says, 29 days are formatted as \<open>0 months\<close>, not as \<open>4 weeks\<close>.
\<close>

theorem FormatRelativeTime_29_days:
  "FormatRelativeTime (24 * Hour) = ''1 day''
   \<and> FormatRelativeTime (28 * (24 * Hour)) = ''28 days''
   \<and> FormatRelativeTime (29 * (24 * Hour)) = ''0 months''"
  by code_simp

text \<open>
  The two tests of the weeks bucket come after \<open>days \<le> 28\<close> has failed, and
  then neither can pass: no duration is ever formatted in weeks.
\<close>

lemma weeks_bucket_unreachable: "28 < days \<Longrightarrow> \<not> (go_div days 7 = 1 \<or> go_div days 7 < 4)"
  unfolding go_div_def by (simp, presburger)

subsection \<open>UnmarshalYAML\<close>

lemma map_of_filter_keys:
  "P k \<Longrightarrow> map_of (filter (\<lambda>kv. P (fst kv)) m) k = map_of m k"
  by (induction m) auto

lemma field_filter_keys:
  "P k \<Longrightarrow> field dec z (filter (\<lambda>kv. P (fst kv)) m) k = field dec z m k"
  by (simp add: field_def map_of_filter_keys)

lemma distinct_filter_keys:
  "distinct (map fst m) \<Longrightarrow> distinct (map fst (filter Q m))"
  by (induction m) auto

lemma unmarshal_without_canonical:
  assumes "distinct (map fst m)"
  shows "unmarshal_fileData (TopMapping (without_canonical_names m)) = unmarshal_fileData (TopMapping m)"
proof -
  let ?P = "\<lambda>k. k \<noteq> ''sourceRevision'' \<and> k \<noteq> ''pipelineRevision''"
  have d: "distinct (map fst (without_canonical_names m))"
    unfolding without_canonical_names_def using assms by (rule distinct_filter_keys)
  have f: "\<And>dec z k. ?P k \<Longrightarrow> field dec z (without_canonical_names m) k = field dec z m k"
    unfolding without_canonical_names_def by (rule field_filter_keys)
  have "field decode_string [] (without_canonical_names m) ''branch'' = field decode_string [] m ''branch''"
       "field decode_string [] (without_canonical_names m) ''timestamp'' = field decode_string [] m ''timestamp''"
       "field decode_int 0 (without_canonical_names m) ''pullRequestId'' = field decode_int 0 m ''pullRequestId''"
       "field decode_string [] (without_canonical_names m) ''revision'' = field decode_string [] m ''revision''"
       "field decode_string [] (without_canonical_names m) ''upstreamRevision'' = field decode_string [] m ''upstreamRevision''"
       "field decode_string [] (without_canonical_names m) ''cloud'' = field decode_string [] m ''cloud''"
       "field decode_string [] (without_canonical_names m) ''environment'' = field decode_string [] m ''environment''"
       "field decode_strings [] (without_canonical_names m) ''regionConfigs'' = field decode_strings [] m ''regionConfigs''"
       "field decode_string [] (without_canonical_names m) ''serviceGroupBase'' = field decode_string [] m ''serviceGroupBase''"
       "field decode_string [] (without_canonical_names m) ''serviceGroup'' = field decode_string [] m ''serviceGroup''"
    by (simp_all add: f)
  with d assms show ?thesis
    by (simp only: unmarshal_fileData_def yaml_document.case if_False simp_thms)
qed

lemma unmarshal_revisions:
  assumes "unmarshal_fileData (TopMapping m) = Inr fd"
  shows "field decode_string [] m ''upstreamRevision'' = Some (fd_UpstreamRevision fd)
       \<and> field decode_string [] m ''revision'' = Some (fd_Revision fd)"
  using assms
  by (auto simp add: unmarshal_fileData_def split: if_splits option.splits)

lemma decode_string_text: "decode_string v = Some x \<Longrightarrow> scalar_text v = x"
  by (cases v) (simp_all add: scalar_text_def)

lemma field_legacy:
  "field decode_string [] m k = Some x \<Longrightarrow> legacy_field m k = x"
  by (auto simp add: field_def legacy_field_def decode_string_text split: option.splits)

lemma without_all_canonical:
  "list_all (\<lambda>kv. fst kv = ''sourceRevision'' \<or> fst kv = ''pipelineRevision'') m
     \<Longrightarrow> without_canonical_names m = []"
  by (induction m) (auto simp add: without_canonical_names_def)

lemma decode_empty_mapping: "decode_ReleaseDeployment (TopMapping []) = Inr zero_ReleaseDeployment"
  by (simp add: decode_ReleaseDeployment_def unmarshal_fileData_def field_def UnmarshalYAML_def
      zero_ReleaseDeployment_def)

text \<open>
  Claim C3, as amended. Whenever a release document decodes, its \<open>SourceRevision\<close>
  is the text of the legacy field \<open>upstreamRevision\<close> and its
  \<open>PipelineRevision\<close> the text of the legacy field \<open>revision\<close>, empty where the
  field is missing. The canonical field names are not read: for a document without
  a repeated key, decoding it and decoding what is left when they are taken out
  give the same result, error or deployment; and a document that has no other keys
  than the canonical ones decodes to the deployment with empty fields.
\<close>

theorem legacy_names_populate_ReleaseId:
  "(decode_ReleaseDeployment (TopMapping m) = Inr d \<longrightarrow>
      ReleaseId (Metadata d)
        = \<lparr>SourceRevision = legacy_field m ''upstreamRevision'',
           PipelineRevision = legacy_field m ''revision''\<rparr>)
   \<and> (distinct (map fst m) \<longrightarrow>
        decode_ReleaseDeployment (TopMapping (without_canonical_names m))
          = decode_ReleaseDeployment (TopMapping m))
   \<and> (distinct (map fst m)
        \<and> list_all (\<lambda>kv. fst kv = ''sourceRevision'' \<or> fst kv = ''pipelineRevision'') m \<longrightarrow>
        decode_ReleaseDeployment (TopMapping m) = Inr zero_ReleaseDeployment)"
proof (intro conjI impI)
  assume a: "decode_ReleaseDeployment (TopMapping m) = Inr d"
  then obtain fd where fd: "unmarshal_fileData (TopMapping m) = Inr fd"
    and d: "d = projr (UnmarshalYAML (Inr fd))"
    by (cases "unmarshal_fileData (TopMapping m)")
       (auto simp add: decode_ReleaseDeployment_def UnmarshalYAML_def)
  from unmarshal_revisions [OF fd]
  have "fd_UpstreamRevision fd = legacy_field m ''upstreamRevision''"
       "fd_Revision fd = legacy_field m ''revision''"
    by (simp_all add: field_legacy)
  then show "ReleaseId (Metadata d)
        = \<lparr>SourceRevision = legacy_field m ''upstreamRevision'',
           PipelineRevision = legacy_field m ''revision''\<rparr>"
    using d by (simp add: UnmarshalYAML_def)
next
  assume "distinct (map fst m)"
  then show "decode_ReleaseDeployment (TopMapping (without_canonical_names m))
          = decode_ReleaseDeployment (TopMapping m)"
    by (simp add: decode_ReleaseDeployment_def unmarshal_without_canonical)
next
  assume a: "distinct (map fst m)
        \<and> list_all (\<lambda>kv. fst kv = ''sourceRevision'' \<or> fst kv = ''pipelineRevision'') m"
  then have "decode_ReleaseDeployment (TopMapping (without_canonical_names m))
          = decode_ReleaseDeployment (TopMapping m)"
    by (simp add: decode_ReleaseDeployment_def unmarshal_without_canonical)
  with a show "decode_ReleaseDeployment (TopMapping m) = Inr zero_ReleaseDeployment"
    by (simp add: without_all_canonical decode_empty_mapping)
qed

text \<open>
  The theorem of claim C3 at the document with the legacy names, at a document whose
  revision is the integer scalar \<open>0012\<close>, and at one with the canonical names only.
\<close>

theorem legacy_names_populate_ReleaseId_witness:
  "decoded_ReleaseId legacy_doc = Inr \<lparr>SourceRevision = ''abc123'', PipelineRevision = ''def456''\<rparr>
   \<and> decoded_ReleaseId (TopMapping [(''revision'', YInt ''0012'' 10)])
       = Inr \<lparr>SourceRevision = [], PipelineRevision = ''0012''\<rparr>
   \<and> decode_ReleaseDeployment
        (TopMapping [(''sourceRevision'', YStr ''abc123''), (''pipelineRevision'', YStr ''def456'')])
       = Inr zero_ReleaseDeployment
   \<and> decode_ReleaseDeployment (TopMapping (without_canonical_names
        [(''branch'', YStr ''main''), (''sourceRevision'', YStr ''abc123''),
         (''pipelineRevision'', YStr ''def456'')]))
       = decode_ReleaseDeployment canonical_doc"
proof -
  have e1: "decode_ReleaseDeployment legacy_doc
      = Inr (zero_ReleaseDeployment\<lparr>Metadata := (Metadata zero_ReleaseDeployment)
              \<lparr>ReleaseId := \<lparr>SourceRevision = ''abc123'', PipelineRevision = ''def456''\<rparr>,
               Branch := ''main''\<rparr>\<rparr>)"
    by (simp add: legacy_doc_def decode_ReleaseDeployment_def unmarshal_fileData_def field_def
        UnmarshalYAML_def zero_ReleaseDeployment_def)
  have e2: "decode_ReleaseDeployment (TopMapping [(''revision'', YInt ''0012'' 10)])
      = Inr (zero_ReleaseDeployment\<lparr>Metadata := (Metadata zero_ReleaseDeployment)
              \<lparr>ReleaseId := \<lparr>SourceRevision = [], PipelineRevision = ''0012''\<rparr>\<rparr>\<rparr>)"
    by (simp add: decode_ReleaseDeployment_def unmarshal_fileData_def field_def
        UnmarshalYAML_def zero_ReleaseDeployment_def)
  show ?thesis
    using legacy_names_populate_ReleaseId [of "[(''branch'', YStr ''main''),
        (''upstreamRevision'', YStr ''abc123''), (''revision'', YStr ''def456'')]"
        "zero_ReleaseDeployment\<lparr>Metadata := (Metadata zero_ReleaseDeployment)
              \<lparr>ReleaseId := \<lparr>SourceRevision = ''abc123'', PipelineRevision = ''def456''\<rparr>,
               Branch := ''main''\<rparr>\<rparr>"]
      legacy_names_populate_ReleaseId [of "[(''revision'', YInt ''0012'' 10)]"
        "zero_ReleaseDeployment\<lparr>Metadata := (Metadata zero_ReleaseDeployment)
              \<lparr>ReleaseId := \<lparr>SourceRevision = [], PipelineRevision = ''0012''\<rparr>\<rparr>\<rparr>"]
      legacy_names_populate_ReleaseId [of "[(''sourceRevision'', YStr ''abc123''),
        (''pipelineRevision'', YStr ''def456'')]" zero_ReleaseDeployment]
      legacy_names_populate_ReleaseId [of "[(''branch'', YStr ''main''),
        (''sourceRevision'', YStr ''abc123''), (''pipelineRevision'', YStr ''def456'')]"
        zero_ReleaseDeployment]
      e1 e2
    by (simp add: decoded_ReleaseId_def legacy_doc_def canonical_doc_def)
qed

text \<open>
  Claim C3 as stated fails: of two documents that differ only in the spelling of the
  two field names, the one with the canonical names decodes to an empty
  \<open>ReleaseId\<close>, the one with the legacy names to the revisions given.
\<close>

theorem canonical_names_counterexample:
  "decoded_ReleaseId canonical_doc = Inr \<lparr>SourceRevision = [], PipelineRevision = []\<rparr>
   \<and> decoded_ReleaseId legacy_doc = Inr \<lparr>SourceRevision = ''abc123'', PipelineRevision = ''def456''\<rparr>"
  by (simp add: decoded_ReleaseId_def canonical_doc_def legacy_doc_def decode_ReleaseDeployment_def
      unmarshal_fileData_def field_def UnmarshalYAML_def)

subsection \<open>buildODataFilter\<close>

text \<open>
  Claim C7. With a logger in the context, the filter of every configuration is the
  container clause, then the five clauses that are always there, in this order,
  then the \<open>revision\<close> clause if and only if the pipeline revision is not empty,
  then the \<open>upstreamRevision\<close> clause if and only if the source revision is not
  empty, each joined to what precedes it by \<open>AND\<close> between two spaces, each value
  in single quotes. The right-hand side is a function of the configuration.
\<close>

theorem buildODataFilter_clauses:
  "buildODataFilter L WithLogger opts =
    Inr (''@container='' @ [CHR 0x27] @ StorageContainerName opts @ [CHR 0x27]
         @ '' AND '' @ clause ''environment'' ''='' (opt_Environment opts)
         @ '' AND '' @ clause ''serviceGroupBase'' ''='' (opt_ServiceGroupBase opts)
         @ '' AND '' @ clause ''timestamp'' ''>='' (Format_RFC3339 L (Since opts))
         @ '' AND '' @ clause ''timestamp'' ''<'' (Format_RFC3339 L (Until opts))
         @ '' AND '' @ clause ''serviceGroup'' ''>='' []
         @ (if opt_PipelineRevision opts = [] then []
            else '' AND '' @ clause ''revision'' ''='' (opt_PipelineRevision opts))
         @ (if opt_SourceRevision opts = [] then []
            else '' AND '' @ clause ''upstreamRevision'' ''='' (opt_SourceRevision opts)))"
  by (simp add: buildODataFilter_def FromContext_def clause_def)

subsection \<open>downloadAndParseComponents\<close>

text \<open>
  Claim C4, as amended. When the components manifest downloads and parses, an empty
  document is the error \<open>parsed YAML document is empty\<close>, and a document whose
  top node is a scalar, which the walk reaches with no path segment, is not an
  error: the leaf is passed over and the call returns the empty components map.
\<close>

theorem pathless_leaf_is_skipped:
  assumes "DownloadStream (ServiceClient opts) (StorageContainerName opts)
             (Join [filepath_Dir L releasePath, region, ConfigFileName] ''/'') = Inr (Inr content)"
      and "yaml_node L content = Inr root'"
      and "Content root' = [] \<or> Kind (hd (Content root')) = ScalarNode"
  shows "downloadAndParseComponents L WithLogger opts releasePath region =
          Some (if Content root' = [] then Inl (Errorf ''parsed YAML document is empty'')
                else Inr Map.empty)"
proof (cases "Content root'")
  case Nil
  with assms show ?thesis
    by (simp add: downloadAndParseComponents_def FromContext_def)
next
  case (Cons n ns)
  with assms(3) have k: "Kind n = ScalarNode" by simp
  obtain k t v cs where n: "n = Node k t v cs" by (cases n)
  with k have "walk (KebabCase L) n [] Map.empty = Some Map.empty" by simp
  with assms Cons show ?thesis
    by (simp add: downloadAndParseComponents_def FromContext_def)
qed

text \<open>The theorem of claim C4 at a manifest whose root is a scalar and at an empty one.\<close>

theorem pathless_leaf_is_skipped_witness:
  "downloadAndParseComponents L_ex WithLogger (opts_ex client_configs) ''r1/release.yaml'' ''uksouth''
     = Some (Inr Map.empty)
   \<and> downloadAndParseComponents L_ex WithLogger (opts_ex client_configs) ''r2/release.yaml'' ''uksouth''
     = Some (Inl (Errorf ''parsed YAML document is empty''))"
proof -
  have p: "Join [filepath_Dir L_ex ''r1/release.yaml'', ''uksouth'', ConfigFileName] ''/'' = ''r1/uksouth/config.yaml''"
          "Join [filepath_Dir L_ex ''r2/release.yaml'', ''uksouth'', ConfigFileName] ''/'' = ''r2/uksouth/config.yaml''"
    by (simp_all add: L_ex_def dir_of_def ConfigFileName_def)
  have d1: "DownloadStream (ServiceClient (opts_ex client_configs)) (StorageContainerName (opts_ex client_configs))
             (Join [filepath_Dir L_ex ''r1/release.yaml'', ''uksouth'', ConfigFileName] ''/'') = Inr (Inr ''sha256:deadbeef'')"
    unfolding p by (simp add: opts_ex_def client_configs_def)
  have d2: "DownloadStream (ServiceClient (opts_ex client_configs)) (StorageContainerName (opts_ex client_configs))
             (Join [filepath_Dir L_ex ''r2/release.yaml'', ''uksouth'', ConfigFileName] ''/'') = Inr (Inr [])"
    unfolding p by (simp add: opts_ex_def client_configs_def)
  have y1: "yaml_node L_ex ''sha256:deadbeef'' = Inr scalar_root"
   and y2: "yaml_node L_ex [] = Inr empty_root"
    by (simp_all add: L_ex_def)
  have c1: "Content scalar_root = [] \<or> Kind (hd (Content scalar_root)) = ScalarNode"
   and c2: "Content empty_root = [] \<or> Kind (hd (Content empty_root)) = ScalarNode"
    by (simp_all add: scalar_root_def empty_root_def)
  show ?thesis
    using pathless_leaf_is_skipped [OF d1 y1 c1] pathless_leaf_is_skipped [OF d2 y2 c2]
    by (simp add: scalar_root_def empty_root_def)
qed

text \<open>
  Claim C4 as stated fails: for a manifest whose root is the scalar
  \<open>sha256:deadbeef\<close> the call returns, without error, a map with no key.
\<close>

theorem pathless_leaf_counterexample:
  "map_option (map_sum id dom)
     (downloadAndParseComponents L_ex WithLogger (opts_ex client_configs) ''r1/release.yaml'' ''uksouth'')
   = Some (Inr {})"
  by (simp add: downloadAndParseComponents_def FromContext_def L_ex_def dir_of_def ConfigFileName_def
      opts_ex_def client_configs_def scalar_root_def)

subsection \<open>ListReleaseDeployments: the paginated fetch\<close>

lemma collect_blob_eligible:
  "collect_blob L e = (if eligible L e then Some (candidate_of L e) else None)"
  by (simp add: collect_blob_def eligible_def candidate_of_def ReleaseFileName_def Let_def
      split: option.splits sum.splits)

lemma collect_blobs_eligible:
  "collect_blobs L page blobs = blobs @ eligible_candidates L page"
proof -
  have "foldl (\<lambda>blobs blob. case collect_blob L blob of None \<Rightarrow> blobs | Some b \<Rightarrow> blobs @ [b]) blobs page
        = blobs @ map (candidate_of L) (filter (eligible L) page)"
    by (induction page arbitrary: blobs) (simp_all add: collect_blob_eligible)
  then show ?thesis by (simp add: collect_blobs_def eligible_candidates_def)
qed

lemma eligible_candidates_append:
  "eligible_candidates L (xs @ ys) = eligible_candidates L xs @ eligible_candidates L ys"
  by (simp add: eligible_candidates_def)

lemma filter_blobs_listed:
  assumes "listed client tagFilter marker entries"
  shows "filter_blobs L client tagFilter marker blobs = Some (Inr (blobs @ eligible_candidates L entries))"
  using assms
proof (induction arbitrary: blobs rule: listed.induct)
  case (last_page marker resp)
  then show ?case
    by (subst filter_blobs.simps) (auto simp add: collect_blobs_eligible)
next
  case (next_page marker resp m entries)
  then show ?case
    by (subst filter_blobs.simps) (simp add: collect_blobs_eligible eligible_candidates_append)
qed

lemma sorted_desc_take_drop:
  assumes "sorted_wrt (\<lambda>a b. \<not> blob_less b a) xs"
  shows "\<forall>x\<in>set (take n xs). \<forall>y\<in>set (drop n xs). timestamp y \<le> timestamp x"
proof -
  from assms have "sorted_wrt (\<lambda>a b. \<not> blob_less b a) (take n xs @ drop n xs)" by simp
  then show ?thesis
    unfolding sorted_wrt_append by (auto simp add: blob_less_def After_def not_less)
qed


lemma mset_insert_by: "mset (insert_by lt x xs) = add_mset x (mset xs)"
  by (induction xs) simp_all

lemma set_insert_by: "set (insert_by lt x xs) = insert x (set xs)"
  by (induction xs) auto

lemma sorted_insert_by:
  "sorted_wrt (\<lambda>a b. \<not> blob_less b a) xs \<Longrightarrow> sorted_wrt (\<lambda>a b. \<not> blob_less b a) (insert_by blob_less x xs)"
  by (induction xs) (auto simp add: set_insert_by blob_less_def After_def)

lemma sort_by_contract:
  "mset (sort_by blob_less xs) = mset xs
   \<and> sorted_wrt (\<lambda>a b. \<not> blob_less b a) (sort_by blob_less xs)"
  unfolding sort_by_def
  by (induction xs) (simp_all add: mset_insert_by sorted_insert_by)



subsection \<open>ListReleaseDeployments: resolving the candidates\<close>

lemma buildODataFilter_WithLogger:
  "\<exists>tagFilter. buildODataFilter L WithLogger opts = Inr tagFilter"
  by (simp add: buildODataFilter_def FromContext_def)

lemma parse_releases_resolved:
  assumes "\<forall>b\<in>set bs. downloadAndParseRelease L ctx opts (name b) \<noteq> None"
  shows "parse_releases L ctx opts bs ds = Some (ds @ concat (map (resolved L ctx opts) bs))"
  using assms
proof (induction bs arbitrary: ds)
  case Nil
  then show ?case by simp
next
  case (Cons b bs)
  then obtain r where r: "downloadAndParseRelease L ctx opts (name b) = Some r" by auto
  from Cons have ih: "\<And>ds. parse_releases L ctx opts bs ds = Some (ds @ concat (map (resolved L ctx opts) bs))"
    by simp
  have rb: "resolved L ctx opts b = (case r of Inl err \<Rightarrow> [] | Inr d \<Rightarrow> [d])"
    by (simp add: resolved_def r split: sum.splits)
  show ?case
    by (cases r) (simp_all add: r ih rb)
qed



lemma client_of_opts_ex: "ServiceClient (opts_ex client) = client"
  by (simp add: opts_ex_def)










subsection \<open>ListReleaseDeployments: what is fetched is what is downloaded\<close>


lemma ListReleaseDeployments_fetched:
  assumes "buildODataFilter L WithLogger opts = Inr tagFilter"
      and "filter_blobs L (ServiceClient opts) tagFilter None [] = Some (Inr blobs)"
  shows "ListReleaseDeployments L WithLogger opts
           = (if blobs = [] then Some (Inr (Slice []))
              else map_option (\<lambda>ds. Inr (Slice ds))
                     (parse_releases L WithLogger opts (sort_and_limit L opts blobs) []))"
  using assms
  by (simp add: ListReleaseDeployments_def FromContext_def split: option.splits)





subsection \<open>ListReleaseDeployments: nothing matched\<close>



lemma listed_nothing: "listed client_configs tagFilter None []"
proof -
  have "listed client_configs tagFilter None (Blobs \<lparr>Blobs = [], NextMarker = None\<rparr>)"
    by (rule listed.last_page) (simp_all add: client_configs_def)
  then show ?thesis by simp
qed




section \<open>Properties of package last\<close>

subsection \<open>The window is restored\<close>

lemma search_back_frame:
  assumes "search_back L ctx step maxLookback end' offset lo queried = Some y"
  shows "\<forall>s u. (fst (snd y))\<lparr>Since := s, Until := u\<rparr> = lo\<lparr>Since := s, Until := u\<rparr>"
  using assms
proof (rule search_back.raw_induct [rotated], goal_cases)
  case (1 sb L ctx step maxLookback end' offset lo queried y)
  note IH = "1"(1) and eq = "1"(2)
  show ?case
  proof (cases "offset < maxLookback")
    case False
    with eq show ?thesis by auto
  next
    case True
    let ?wu = "Add end' (wrap64 (- offset))"
    let ?ws = "Add ?wu (wrap64 (- step))"
    let ?lo = "lo\<lparr>Since := ?ws, Until := ?wu\<rparr>"
    from True eq have body:
      "(case ListReleaseDeployments L ctx ?lo of
          None \<Rightarrow> None
        | Some (Inl err) \<Rightarrow> Some (Inl err, ?lo, queried @ [(?ws, ?wu)])
        | Some (Inr deployments) \<Rightarrow>
            if length (elems deployments) > 0
            then Some (Inr (elems deployments ! 0), ?lo, queried @ [(?ws, ?wu)])
            else sb L ctx step maxLookback end' (wrap64 (offset + step)) ?lo
                   (queried @ [(?ws, ?wu)])) = Some y"
      by (simp add: Let_def)
    show ?thesis
    proof (cases "ListReleaseDeployments L ctx ?lo")
      case None
      with body show ?thesis by simp
    next
      case (Some r)
      show ?thesis
      proof (cases r)
        case (Inl err)
        with Some body show ?thesis by auto
      next
        case (Inr deployments)
        show ?thesis
        proof (cases "length (elems deployments) > 0")
          case True
          with Some Inr body show ?thesis by auto
        next
          case False
          with Some Inr body have
            "sb L ctx step maxLookback end' (wrap64 (offset + step)) ?lo
               (queried @ [(?ws, ?wu)]) = Some y" by simp
          from IH [OF this] show ?thesis by simp
        qed
      qed
    qed
  qed
qed

text \<open>
  Claim C6. Whenever \<open>LastReleaseDeployment\<close> returns, with a deployment, with
  the exhaustion error or with an error of the listing, the options the caller
  holds afterwards have the \<open>Since\<close> and \<open>Until\<close> they had before the call; in
  fact they are the same options altogether.
\<close>

theorem window_restored:
  assumes "LastReleaseDeployment L ctx now o' = Some (result, o'', queried)"
  shows "Since (ListOptions o'') = Since (ListOptions o')
       \<and> Until (ListOptions o'') = Until (ListOptions o')
       \<and> o'' = o'"
proof -
  let ?end = "if IsZero (Until (ListOptions o')) then now else Until (ListOptions o')"
  from assms obtain lo where
    sb: "search_back L ctx (Step o') (MaxLookback o') ?end 0 (ListOptions o') [] = Some (result, lo, queried)"
    and o'': "o'' = o'\<lparr>ListOptions := lo\<lparr>Since := Since (ListOptions o'), Until := Until (ListOptions o')\<rparr>\<rparr>"
    by (auto simp add: LastReleaseDeployment_def Let_def split: option.splits)
  from search_back_frame [OF sb]
  have "lo\<lparr>Since := Since (ListOptions o'), Until := Until (ListOptions o')\<rparr> = ListOptions o'"
    by simp
  with o'' have "o'' = o'" by simp
  then show ?thesis by simp
qed

subsection \<open>The windows that are searched\<close>

lemma wrap64_in_range: "- MaxInt64 \<le> x \<Longrightarrow> x \<le> MaxInt64 \<Longrightarrow> wrap64 x = x"
  by (simp add: wrap64_def MaxInt64_def)

lemma iterations_bound:
  assumes "0 < Step o'"
  shows "(int j * Step o' < MaxLookback o') = (j < iterations o')"
proof -
  have "(int j < \<lceil>(of_int (MaxLookback o') :: rat) / of_int (Step o')\<rceil>)
          = ((of_int (int j) :: rat) < of_int (MaxLookback o') / of_int (Step o'))"
    by (rule less_ceiling_iff)
  also have "\<dots> = ((of_int (int j) :: rat) * of_int (Step o') < of_int (MaxLookback o'))"
    using assms by (simp add: pos_less_divide_eq)
  also have "\<dots> = (int j * Step o' < MaxLookback o')"
    by (metis of_int_less_iff of_int_mult)
  finally show ?thesis by (auto simp add: iterations_def)
qed

lemma iterations_eq:
  assumes "0 < Step o'" "(int n - 1) * Step o' < MaxLookback o'" "MaxLookback o' \<le> int n * Step o'"
  shows "iterations o' = n"
proof -
  have "\<lceil>(of_int (MaxLookback o') :: rat) / of_int (Step o')\<rceil> = int n"
  proof (rule ceiling_unique)
    have "(of_int ((int n - 1) * Step o') :: rat) < of_int (MaxLookback o')"
      using assms(2) by (simp only: of_int_less_iff)
    then show "of_int (int n) - 1 < (of_int (MaxLookback o') :: rat) / of_int (Step o')"
      using assms(1) by (simp add: pos_less_divide_eq)
    have "(of_int (MaxLookback o') :: rat) \<le> of_int (int n * Step o')"
      using assms(3) by (simp only: of_int_le_iff)
    then show "(of_int (MaxLookback o') :: rat) / of_int (Step o') \<le> of_int (int n)"
      using assms(1) by (simp add: pos_divide_le_eq)
  qed
  then show ?thesis by (simp add: iterations_def)
qed

lemma search_back_windows:
  assumes step: "0 < step"
      and fit: "int n * step \<le> MaxInt64"
      and bound: "\<forall>j. (int j * step < maxLookback) = (j < n)"
      and same: "\<forall>s u. lo\<lparr>Since := s, Until := u\<rparr> = lo0\<lparr>Since := s, Until := u\<rparr>"
      and k: "k \<le> n" "m = n - k"
  shows "map_option (\<lambda>(r, lo', qs). (r, qs))
           (search_back L ctx step maxLookback anchor (int k * step) lo queried)
         = map_option (\<lambda>(r, ws). (r, queried @ ws))
             (search_windows (query L ctx lo0) anchor step m k)"
  using same k
proof (induction m arbitrary: k lo queried)
  case 0
  then have "k = n" by simp
  with bound have "\<not> int k * step < maxLookback" by simp
  then show ?case
    by (subst search_back.simps) simp
next
  case (Suc m)
  then have kn: "k < n" and m: "m = n - Suc k" by simp_all
  with bound have lt: "int k * step < maxLookback" by simp
  have nonneg: "0 \<le> int k * step" using step by simp
  have "int k * step + step = int (Suc k) * step" by (simp add: algebra_simps)
  moreover have "int (Suc k) * step \<le> int n * step"
    using kn step by (intro mult_right_mono) simp_all
  ultimately have le: "int k * step + step \<le> MaxInt64" using fit by simp
  have r1: "wrap64 (- (int k * step)) = - (int k * step)"
  proof (rule wrap64_in_range)
    show "- MaxInt64 \<le> - (int k * step)" using le step by linarith
    show "- (int k * step) \<le> MaxInt64" using le nonneg step by linarith
  qed
  have r2: "wrap64 (- step) = - step"
  proof (rule wrap64_in_range)
    show "- MaxInt64 \<le> - step" using le nonneg by linarith
    show "- step \<le> MaxInt64" using le nonneg step by linarith
  qed
  have "wrap64 (int k * step + step) = int k * step + step"
  proof (rule wrap64_in_range)
    show "- MaxInt64 \<le> int k * step + step" using le nonneg step by linarith
    show "int k * step + step \<le> MaxInt64" by (rule le)
  qed
  then have r3: "wrap64 (int k * step + step) = int (Suc k) * step"
    by (simp add: algebra_simps)
  let ?w = "window anchor step k"
  have w: "Add (Add anchor (wrap64 (- (int k * step)))) (wrap64 (- step)) = fst ?w"
          "Add anchor (wrap64 (- (int k * step))) = snd ?w"
          "Add (snd ?w) (wrap64 (- step)) = fst ?w"
    unfolding r1 r2 by (simp_all add: Add_def window_def algebra_simps)
  let ?lo = "lo\<lparr>Since := fst ?w, Until := snd ?w\<rparr>"
  have q: "ListReleaseDeployments L ctx ?lo = query L ctx lo0 ?w"
    using Suc.prems(1) by (simp add: query_def)
  have same': "\<forall>s u. ?lo\<lparr>Since := s, Until := u\<rparr> = lo0\<lparr>Since := s, Until := u\<rparr>"
    using Suc.prems(1) by simp
  have unfold: "search_back L ctx step maxLookback anchor (int k * step) lo queried
      = (case query L ctx lo0 ?w of
           None \<Rightarrow> None
         | Some (Inl err) \<Rightarrow> Some (Inl err, ?lo, queried @ [?w])
         | Some (Inr deployments) \<Rightarrow>
             if length (elems deployments) > 0
             then Some (Inr (elems deployments ! 0), ?lo, queried @ [?w])
             else search_back L ctx step maxLookback anchor (int (Suc k) * step) ?lo (queried @ [?w]))"
    by (subst search_back.simps)
       (simp add: lt Let_def w q r3 del: of_nat_Suc cong: option.case_cong sum.case_cong if_cong)
  have ih: "map_option (\<lambda>(r, lo', qs). (r, qs))
              (search_back L ctx step maxLookback anchor (int (Suc k) * step) ?lo (queried @ [?w]))
            = map_option (\<lambda>(r, ws). (r, (queried @ [?w]) @ ws))
                (search_windows (query L ctx lo0) anchor step m (Suc k))"
    using kn m by (intro Suc.IH same') simp_all
  then have ih': "map_option (\<lambda>a. (fst a, snd (snd a)))
              (search_back L ctx step maxLookback anchor (int (Suc k) * step) ?lo (queried @ [?w]))
            = map_option (\<lambda>x. (fst x, queried @ ?w # snd x))
                (search_windows (query L ctx lo0) anchor step m (Suc k))"
    by (simp add: case_prod_unfold)
  show ?case
  proof (cases "query L ctx lo0 ?w")
    case None
    then show ?thesis by (simp add: unfold)
  next
    case (Some r)
    show ?thesis
    proof (cases r)
      case (Inl err)
      with Some show ?thesis by (simp add: unfold)
    next
      case (Inr deployments)
      show ?thesis
      proof (cases "elems deployments")
        case Nil
        with Some Inr show ?thesis
          by (simp add: unfold ih' option.map_comp comp_def case_prod_unfold del: of_nat_Suc)
      next
        case (Cons d ds)
        with Some Inr show ?thesis by (simp add: unfold)
      qed
    qed
  qed
qed

text \<open>
  The loop and the windows. With step and lookback validated, and as long as
  \<open>\<lceil>maxLookback / step\<rceil> * step\<close> does not exceed the largest 64-bit duration,
  \<open>LastReleaseDeployment\<close> returns what the search over the windows returns, and
  queries exactly the windows that search queries.
\<close>

lemma LastReleaseDeployment_windows:
  assumes "Validate_durations o' = Inr ()"
      and "int (iterations o') * Step o' \<le> MaxInt64"
  shows "map_option (\<lambda>(result, o'', queried). (result, queried)) (LastReleaseDeployment L ctx now o')
         = search_windows (query L ctx (ListOptions o')) (anchor_of now o') (Step o') (iterations o') 0"
proof -
  from assms(1) have step: "0 < Step o'"
    by (simp add: Validate_durations_def split: if_splits)
  have sb: "map_option (\<lambda>(r, lo', qs). (r, qs))
              (search_back L ctx (Step o') (MaxLookback o') (anchor_of now o') (int 0 * Step o')
                 (ListOptions o') [])
            = map_option (\<lambda>(r, ws). (r, [] @ ws))
                (search_windows (query L ctx (ListOptions o')) (anchor_of now o') (Step o')
                   (iterations o') 0)"
    using step assms(2) iterations_bound [OF step]
    by (intro search_back_windows) simp_all
  have "map_option (\<lambda>(result, o'', queried). (result, queried)) (LastReleaseDeployment L ctx now o')
        = map_option (\<lambda>(r, lo', qs). (r, qs))
            (search_back L ctx (Step o') (MaxLookback o') (anchor_of now o') 0 (ListOptions o') [])"
    by (simp add: LastReleaseDeployment_def anchor_of_def IsZero_def Let_def split: option.splits)
  with sb show ?thesis by (simp add: option.map_ident case_prod_unfold cong: option.map_cong)
qed

text \<open>
  The deployment a listing returns first. When \<^verbatim>\<open>sort.Slice\<close> sorts, the first
  deployment of a listing is the one of the most recent fetched candidate that
  resolves.
\<close>

lemma parse_releases_Some:
  "parse_releases L ctx opts bs ds = Some r
     \<Longrightarrow> \<forall>b\<in>set bs. downloadAndParseRelease L ctx opts (name b) \<noteq> None"
proof (induction bs arbitrary: ds)
  case Nil
  show ?case by simp
next
  case (Cons b bs)
  show ?case
  proof (cases "downloadAndParseRelease L ctx opts (name b)")
    case None
    with Cons.prems show ?thesis by simp
  next
    case (Some x)
    with Cons.prems Cons.IH show ?thesis
      by (cases x) auto
  qed
qed

lemma resolved_cases:
  "resolved L ctx opts c = [] \<or> (\<exists>x. resolved L ctx opts c = [x])"
  by (simp add: resolved_def split: option.splits sum.splits)

lemma concat_resolved_Cons:
  "concat (map (resolved L ctx opts) rs) = d # rest
     \<Longrightarrow> \<exists>pre b post. rs = pre @ b # post \<and> (\<forall>c\<in>set pre. resolved L ctx opts c = [])
                         \<and> resolved L ctx opts b = [d]"
proof (induction rs)
  case Nil
  then show ?case by simp
next
  case (Cons c rs)
  show ?case
  proof (cases "resolved L ctx opts c = []")
    case True
    with Cons.prems have "concat (map (resolved L ctx opts) rs) = d # rest" by simp
    from Cons.IH [OF this] obtain pre b post where
      "rs = pre @ b # post" "\<forall>c\<in>set pre. resolved L ctx opts c = []" "resolved L ctx opts b = [d]"
      by blast
    with True have "c # rs = (c # pre) @ b # post \<and> (\<forall>c\<in>set (c # pre). resolved L ctx opts c = [])
        \<and> resolved L ctx opts b = [d]" by simp
    then show ?thesis by blast
  next
    case False
    with resolved_cases [of L ctx opts c] obtain x where x: "resolved L ctx opts c = [x]" by blast
    with Cons.prems have "x = d" by simp
    with x have "c # rs = [] @ c # rs \<and> (\<forall>c\<in>set []. resolved L ctx opts c = [])
        \<and> resolved L ctx opts c = [d]" by simp
    then show ?thesis by blast
  qed
qed

lemma first_is_most_recent:
  assumes contract: "\<forall>xs. mset (sort_Slice L blob_less xs) = mset xs
                \<and> sorted_wrt (\<lambda>a b. \<not> blob_less b a) (sort_Slice L blob_less xs)"
      and list: "ListReleaseDeployments L ctx opts = Some (Inr ds)"
      and first: "elems ds = d # rest"
  shows "most_recent_resolved L ctx opts d"
proof -
  from list have ctx: "ctx = WithLogger"
    by (cases ctx) (simp_all add: ListReleaseDeployments_def FromContext_def)
  obtain tf where tf: "buildODataFilter L WithLogger opts = Inr tf"
    using buildODataFilter_WithLogger by blast
  have "\<exists>blobs. filter_blobs L (ServiceClient opts) tf None [] = Some (Inr blobs)"
  proof (cases "filter_blobs L (ServiceClient opts) tf None []")
    case None
    with list tf ctx show ?thesis
      by (simp add: ListReleaseDeployments_def FromContext_def)
  next
    case (Some r)
    with list tf ctx show ?thesis
      by (cases r) (simp_all add: ListReleaseDeployments_def FromContext_def)
  qed
  then obtain blobs where
    fb: "filter_blobs L (ServiceClient opts) tf None [] = Some (Inr blobs)" ..
  have fetched: "fetched L ctx opts = blobs"
    by (simp add: fetched_def ctx tf fb)
  let ?s = "sort_Slice L blob_less blobs"
  let ?k = "sort_and_limit L opts blobs"
  from contract have ms: "mset ?s = mset blobs" and so: "sorted_wrt (\<lambda>a b. \<not> blob_less b a) ?s"
    by simp_all
  have ne: "blobs \<noteq> []"
  proof
    assume "blobs = []"
    with list ctx ListReleaseDeployments_fetched [OF tf fb] have "ds = Slice []" by simp
    with first show False by simp
  qed
  with list ctx ListReleaseDeployments_fetched [OF tf fb]
  have pr: "map_option (\<lambda>ds. Inr (Slice ds)) (parse_releases L WithLogger opts ?k []) = Some (Inr ds)"
    by simp
  then obtain deps where deps: "parse_releases L WithLogger opts ?k [] = Some deps" and ds: "ds = Slice deps"
    by (cases "parse_releases L WithLogger opts ?k []") auto
  from parse_releases_Some [OF deps]
  have "parse_releases L WithLogger opts ?k [] = Some ([] @ concat (map (resolved L WithLogger opts) ?k))"
    by (rule parse_releases_resolved)
  with deps ds first have "concat (map (resolved L WithLogger opts) ?k) = d # rest" by simp
  from concat_resolved_Cons [OF this] obtain pre b post where
    k: "?k = pre @ b # post" and pre: "\<forall>c\<in>set pre. resolved L WithLogger opts c = []"
    and b: "resolved L WithLogger opts b = [d]" by blast
  define n where "n = (if 0 < Limit opts \<and> Limit opts < int (length ?s) then nat (Limit opts) else length ?s)"
  have kn: "?k = take n ?s"
    by (simp add: sort_and_limit_def Let_def n_def)
  have sk: "sorted_wrt (\<lambda>a b. \<not> blob_less b a) ?k"
    unfolding kn using so by (rule sorted_wrt_take)
  have bk: "b \<in> set ?k" using k by simp
  then have "b \<in> set ?s" unfolding kn by (rule in_set_takeD)
  moreover from ms have sets: "set ?s = set blobs" by (rule mset_eq_setD)
  ultimately have bin: "b \<in> set blobs" by simp
  have later: "\<forall>c\<in>set blobs. timestamp b < timestamp c \<longrightarrow> resolved L WithLogger opts c = []"
  proof (intro ballI impI)
    fix c
    assume c: "c \<in> set blobs" and lt: "timestamp b < timestamp c"
    from c sets have "c \<in> set ?s" by simp
    moreover have "set ?s = set (take n ?s) \<union> set (drop n ?s)"
      by (simp only: set_append [symmetric] append_take_drop_id)
    ultimately have "c \<in> set (take n ?s) \<or> c \<in> set (drop n ?s)"
      by (simp only: Un_iff)
    then show "resolved L WithLogger opts c = []"
    proof
      assume "c \<in> set (drop n ?s)"
      moreover from bk kn have "b \<in> set (take n ?s)" by simp
      ultimately have "timestamp c \<le> timestamp b"
        using sorted_desc_take_drop [OF so, of n] by blast
      with lt show ?thesis by simp
    next
      assume "c \<in> set (take n ?s)"
      then have "c \<in> set (pre @ b # post)" unfolding kn [symmetric] k .
      then have "c \<in> set pre \<or> c = b \<or> c \<in> set post" by auto
      moreover have "c \<noteq> b" using lt by auto
      moreover have "c \<notin> set post"
      proof
        assume "c \<in> set post"
        moreover from sk have "sorted_wrt (\<lambda>a b. \<not> blob_less b a) (pre @ b # post)" unfolding k .
        ultimately have "\<not> blob_less c b" by (simp add: sorted_wrt_append)
        with lt show False by (simp add: blob_less_def After_def)
      qed
      ultimately show ?thesis using pre by blast
    qed
  qed
  from b later
  have "resolved L ctx opts b = [d]
      \<and> (\<forall>c\<in>set blobs. timestamp b < timestamp c \<longrightarrow> resolved L ctx opts c = [])"
    unfolding ctx by (rule conjI)
  with bin show ?thesis
    unfolding most_recent_resolved_def fetched by (rule bexI [rotated])
qed

lemma search_back_found:
  assumes "search_back L ctx step maxLookback end' offset lo queried = Some y"
  shows "\<forall>lo0 d. (\<forall>s u. lo\<lparr>Since := s, Until := u\<rparr> = lo0\<lparr>Since := s, Until := u\<rparr>) \<longrightarrow> fst y = Inr d \<longrightarrow>
           snd (snd y) \<noteq> []
           \<and> (\<exists>ds rest. ListReleaseDeployments L ctx
                   (lo0\<lparr>Since := fst (last (snd (snd y))), Until := snd (last (snd (snd y)))\<rparr>)
                 = Some (Inr ds) \<and> elems ds = d # rest)"
  using assms
proof (rule search_back.raw_induct [rotated], goal_cases)
  case (1 sb L ctx step maxLookback end' offset lo queried y)
  note IH = "1"(1) and eq = "1"(2)
  show ?case
  proof (cases "offset < maxLookback")
    case False
    with eq show ?thesis by auto
  next
    case True
    let ?wu = "Add end' (wrap64 (- offset))"
    let ?ws = "Add ?wu (wrap64 (- step))"
    let ?lo = "lo\<lparr>Since := ?ws, Until := ?wu\<rparr>"
    from True eq have body:
      "(case ListReleaseDeployments L ctx ?lo of
          None \<Rightarrow> None
        | Some (Inl err) \<Rightarrow> Some (Inl err, ?lo, queried @ [(?ws, ?wu)])
        | Some (Inr deployments) \<Rightarrow>
            if length (elems deployments) > 0
            then Some (Inr (elems deployments ! 0), ?lo, queried @ [(?ws, ?wu)])
            else sb L ctx step maxLookback end' (wrap64 (offset + step)) ?lo
                   (queried @ [(?ws, ?wu)])) = Some y"
      by (simp add: Let_def)
    show ?thesis
    proof (cases "ListReleaseDeployments L ctx ?lo")
      case None
      with body show ?thesis by simp
    next
      case (Some r)
      show ?thesis
      proof (cases r)
        case (Inl err)
        with Some body show ?thesis by auto
      next
        case (Inr deployments)
        show ?thesis
        proof (cases "elems deployments")
          case (Cons e es)
          with Some Inr body have y: "y = (Inr e, ?lo, queried @ [(?ws, ?wu)])" by auto
          show ?thesis
          proof (intro allI impI)
            fix lo0 d
            assume same: "\<forall>s u. lo\<lparr>Since := s, Until := u\<rparr> = lo0\<lparr>Since := s, Until := u\<rparr>"
              and d: "fst y = Inr d"
            from same have "lo0\<lparr>Since := ?ws, Until := ?wu\<rparr> = ?lo" by simp
            with Some Inr Cons y d
            show "snd (snd y) \<noteq> []
               \<and> (\<exists>ds rest. ListReleaseDeployments L ctx
                      (lo0\<lparr>Since := fst (last (snd (snd y))), Until := snd (last (snd (snd y)))\<rparr>)
                     = Some (Inr ds) \<and> elems ds = d # rest)"
              by auto
          qed
        next
          case Nil
          with Some Inr body have
            rec: "sb L ctx step maxLookback end' (wrap64 (offset + step)) ?lo
               (queried @ [(?ws, ?wu)]) = Some y" by simp
          show ?thesis
          proof (intro allI impI)
            fix lo0 d
            assume same: "\<forall>s u. lo\<lparr>Since := s, Until := u\<rparr> = lo0\<lparr>Since := s, Until := u\<rparr>"
              and d: "fst y = Inr d"
            from same have "\<forall>s u. ?lo\<lparr>Since := s, Until := u\<rparr> = lo0\<lparr>Since := s, Until := u\<rparr>" by simp
            with IH [OF rec] d
            show "snd (snd y) \<noteq> []
               \<and> (\<exists>ds rest. ListReleaseDeployments L ctx
                      (lo0\<lparr>Since := fst (last (snd (snd y))), Until := snd (last (snd (snd y)))\<rparr>)
                     = Some (Inr ds) \<and> elems ds = d # rest)"
              by blast
          qed
        qed
      qed
    qed
  qed
qed

text \<open>
  Claim C5, as amended. With step and lookback validated, and as long as
  \<open>\<lceil>maxLookback / step\<rceil> * step\<close> does not exceed the largest 64-bit duration,
  so that the offset never wraps around, \<open>LastReleaseDeployment\<close> returns what
  the search over the windows \<open>[anchor - (k + 1) * step, anchor - k * step)\<close>,
  \<open>k = 0, 1, \<dots>\<close> returns, and queries exactly the windows that search queries:
  the anchor is \<open>Until\<close>, or the current instant when \<open>Until\<close> is zero, and
  there are at most \<open>\<lceil>maxLookback / step\<rceil>\<close> iterations. When
  \<^verbatim>\<open>sort.Slice\<close> sorts, so that the result set of a window is in descending order
  of timestamp, the deployment returned is the first of the result set of the last
  window queried: it is the deployment of the most recent candidate of that window
  that resolves.
\<close>

theorem backward_search:
  assumes "Validate_durations o' = Inr ()"
      and "int (iterations o') * Step o' \<le> MaxInt64"
      and "\<forall>xs. mset (sort_Slice L blob_less xs) = mset xs
                \<and> sorted_wrt (\<lambda>a b. \<not> blob_less b a) (sort_Slice L blob_less xs)"
  shows "map_option (\<lambda>(result, o'', queried). (result, queried)) (LastReleaseDeployment L ctx now o')
           = search_windows (query L ctx (ListOptions o')) (anchor_of now o') (Step o') (iterations o') 0
       \<and> (LastReleaseDeployment L ctx now o' = Some (Inr d, o'', queried) \<longrightarrow>
            queried \<noteq> []
            \<and> (\<exists>ds rest. query L ctx (ListOptions o') (last queried) = Some (Inr ds) \<and> elems ds = d # rest)
            \<and> most_recent_resolved L ctx
                 ((ListOptions o')\<lparr>Since := fst (last queried), Until := snd (last queried)\<rparr>) d)"
proof
  show "map_option (\<lambda>(result, o'', queried). (result, queried)) (LastReleaseDeployment L ctx now o')
           = search_windows (query L ctx (ListOptions o')) (anchor_of now o') (Step o') (iterations o') 0"
    using assms(1,2) by (rule LastReleaseDeployment_windows)
next
  show "LastReleaseDeployment L ctx now o' = Some (Inr d, o'', queried) \<longrightarrow>
            queried \<noteq> []
            \<and> (\<exists>ds rest. query L ctx (ListOptions o') (last queried) = Some (Inr ds) \<and> elems ds = d # rest)
            \<and> most_recent_resolved L ctx
                 ((ListOptions o')\<lparr>Since := fst (last queried), Until := snd (last queried)\<rparr>) d"
  proof
    assume run: "LastReleaseDeployment L ctx now o' = Some (Inr d, o'', queried)"
    let ?end = "if IsZero (Until (ListOptions o')) then now else Until (ListOptions o')"
    from run obtain lo where
      sb: "search_back L ctx (Step o') (MaxLookback o') ?end 0 (ListOptions o') [] = Some (Inr d, lo, queried)"
      by (auto simp add: LastReleaseDeployment_def Let_def split: option.splits)
    from search_back_found [OF sb, rule_format, of "ListOptions o'" d]
    obtain ds rest where q: "queried \<noteq> []"
      and l: "ListReleaseDeployments L ctx
                ((ListOptions o')\<lparr>Since := fst (last queried), Until := snd (last queried)\<rparr>) = Some (Inr ds)"
      and e: "elems ds = d # rest"
      by auto
    from l e have "\<exists>ds rest. query L ctx (ListOptions o') (last queried) = Some (Inr ds) \<and> elems ds = d # rest"
      unfolding query_def by blast
    with first_is_most_recent [OF assms(3) l e] q
    show "queried \<noteq> []
            \<and> (\<exists>ds rest. query L ctx (ListOptions o') (last queried) = Some (Inr ds) \<and> elems ds = d # rest)
            \<and> most_recent_resolved L ctx
                 ((ListOptions o')\<lparr>Since := fst (last queried), Until := snd (last queried)\<rparr>) d"
      by blast
  qed
qed

text \<open>
  What the search over the windows returns: when \<open>n\<close> successive windows hold
  nothing, the exhaustion error after exactly \<open>n\<close> queries; when the first
  window that holds something is the window \<open>i < n\<close> after the start, the first
  deployment of that window after exactly \<open>i + 1\<close> queries.
\<close>

lemma search_windows_exhausted:
  assumes "\<forall>j<n. \<exists>ds. q (window anchor step (k + j)) = Some (Inr ds) \<and> elems ds = []"
  shows "search_windows q anchor step n k
           = Some (Inl ErrNoDeploymentsFound, map (window anchor step) [k..<k + n])"
  using assms
proof (induction n arbitrary: k)
  case 0
  then show ?case by simp
next
  case (Suc n)
  from Suc.prems obtain ds where ds: "q (window anchor step k) = Some (Inr ds)" "elems ds = []"
    by force
  have "\<forall>j<n. \<exists>ds. q (window anchor step (Suc k + j)) = Some (Inr ds) \<and> elems ds = []"
    using Suc.prems by (metis Suc_less_eq add_Suc_shift)
  then have ih: "search_windows q anchor step n (Suc k)
      = Some (Inl ErrNoDeploymentsFound, map (window anchor step) [Suc k..<Suc k + n])"
    by (rule Suc.IH)
  have u: "[k..<k + Suc n] = k # [Suc k..<Suc k + n]"
    by (subst upt_rec) simp
  show ?case
    unfolding u by (simp add: ds ih del: upt_Suc)
qed

lemma search_windows_found:
  assumes "\<forall>j<i. \<exists>ds. q (window anchor step (k + j)) = Some (Inr ds) \<and> elems ds = []"
      and "q (window anchor step (k + i)) = Some (Inr ds)"
      and "elems ds = d # rest"
      and "i < n"
  shows "search_windows q anchor step n k
           = Some (Inr d, map (window anchor step) [k..<k + i + 1])"
  using assms
proof (induction i arbitrary: k n)
  case 0
  then obtain m where "n = Suc m" by (cases n) auto
  with 0 show ?case by simp
next
  case (Suc i)
  then obtain m where n: "n = Suc m" and im: "i < m" by (cases n) auto
  from Suc.prems(1) obtain ds0 where ds0: "q (window anchor step k) = Some (Inr ds0)" "elems ds0 = []"
    by force
  have "\<forall>j<i. \<exists>ds. q (window anchor step (Suc k + j)) = Some (Inr ds) \<and> elems ds = []"
    using Suc.prems(1) by (metis Suc_less_eq add_Suc_shift)
  moreover have "q (window anchor step (Suc k + i)) = Some (Inr ds)"
    using Suc.prems(2) by simp
  ultimately have "search_windows q anchor step m (Suc k)
      = Some (Inr d, map (window anchor step) [Suc k..<Suc k + i + 1])"
    using Suc.prems(3) im by (intro Suc.IH)
  then have ih: "search_windows q anchor step m (Suc k)
      = Some (Inr d, map (window anchor step) [Suc k..<Suc k + i + 1])" .
  have u: "[k..<k + Suc i + 1] = k # [Suc k..<Suc k + i + 1]"
    by (subst upt_rec) simp
  show ?case
    unfolding u n by (simp add: ds0 ih del: upt_Suc)
qed

text \<open>
  Within the range of the offset the search returns as soon as every listing does,
  and then the caller finds the options unchanged.
\<close>

lemma search_windows_returns:
  assumes "\<forall>w. q w \<noteq> None"
  shows "search_windows q anchor step n k \<noteq> None"
proof (induction n arbitrary: k)
  case 0
  show ?case by simp
next
  case (Suc n)
  from assms have "q (window anchor step k) \<noteq> None" by (rule spec)
  then obtain r where r: "q (window anchor step k) = Some r" by (cases "q (window anchor step k)") simp_all
  show ?case
  proof (cases r)
    case (Inl err)
    with r show ?thesis by simp
  next
    case (Inr ds)
    with r Suc [of "Suc k"] show ?thesis
      by (cases "elems ds") auto
  qed
qed

lemma LastReleaseDeployment_returns:
  assumes "Validate_durations o' = Inr ()"
      and "int (iterations o') * Step o' \<le> MaxInt64"
      and "\<forall>w. query L ctx (ListOptions o') w \<noteq> None"
  shows "\<exists>result queried. LastReleaseDeployment L ctx now o' = Some (result, o', queried)"
proof -
  from assms(1) have step: "0 < Step o'"
    by (simp add: Validate_durations_def split: if_splits)
  let ?sb = "search_back L ctx (Step o') (MaxLookback o') (anchor_of now o') (int 0 * Step o')
               (ListOptions o') []"
  have "map_option (\<lambda>(r, lo', qs). (r, qs)) ?sb
          = map_option (\<lambda>(r, ws). (r, [] @ ws))
              (search_windows (query L ctx (ListOptions o')) (anchor_of now o') (Step o')
                 (iterations o') 0)"
    using step assms(2) iterations_bound [OF step]
    by (intro search_back_windows) simp_all
  moreover have "search_windows (query L ctx (ListOptions o')) (anchor_of now o') (Step o')
                   (iterations o') 0 \<noteq> None"
    using assms(3) by (rule search_windows_returns)
  ultimately have "?sb \<noteq> None" by auto
  then obtain result lo queried where sb: "?sb = Some (result, lo, queried)"
    by (cases ?sb) auto
  from search_back_frame [OF sb]
  have "lo\<lparr>Since := Since (ListOptions o'), Until := Until (ListOptions o')\<rparr> = ListOptions o'"
    by simp
  with sb have "LastReleaseDeployment L ctx now o' = Some (result, o', queried)"
    by (simp add: LastReleaseDeployment_def anchor_of_def IsZero_def Let_def)
  then show ?thesis by blast
qed

subsection \<open>Concrete searches\<close>

lemma list_nothing:
  assumes "ServiceClient lo = client_configs"
  shows "ListReleaseDeployments L WithLogger lo = Some (Inr (Slice []))"
proof -
  obtain tf where tf: "buildODataFilter L WithLogger lo = Inr tf"
    using buildODataFilter_WithLogger by blast
  have "filter_blobs L client_configs tf None [] = Some (Inr [])"
    using filter_blobs_listed [OF listed_nothing, of L tf "[]"]
    by (simp add: eligible_candidates_def)
  with tf assms show ?thesis
    by (simp add: ListReleaseDeployments_def FromContext_def)
qed

lemma query_nothing:
  "query L WithLogger (ListOptions (last_ex client_configs step maxLookback)) w = Some (Inr (Slice []))"
  by (simp add: query_def list_nothing last_ex_def opts_ex_def)

lemma iterations_ex: "iterations (last_ex client 100 250) = 3"
  by (rule iterations_eq) (simp_all add: last_ex_def)

lemma iterations_wrap:
  "iterations (last_ex client 4611686018427387905 4611686018427387906) = 2"
  by (rule iterations_eq) (simp_all add: last_ex_def)

lemma filter_window_800:
  "buildODataFilter L_ex WithLogger ((opts_ex client_window)\<lparr>Since := 800, Until := 900\<rparr>)
     = buildODataFilter L_ex WithLogger ((opts_ex client_configs)\<lparr>Since := 800, Until := 900\<rparr>)"
  by (simp add: buildODataFilter_def FromContext_def opts_ex_def)

lemma filter_window_900:
  "buildODataFilter L_ex WithLogger ((opts_ex client_window)\<lparr>Since := 900, Until := 1000\<rparr>)
     \<noteq> buildODataFilter L_ex WithLogger ((opts_ex client_configs)\<lparr>Since := 800, Until := 900\<rparr>)"
  by (simp add: buildODataFilter_def FromContext_def opts_ex_def L_ex_def Itoa_def digit_char_def)

lemma query_window_900:
  "query L_ex WithLogger (ListOptions (last_ex client_window 100 250)) (900, 1000) = Some (Inr (Slice []))"
proof -
  let ?lo = "(opts_ex client_window)\<lparr>Since := 900, Until := 1000\<rparr>"
  obtain tf where tf: "buildODataFilter L_ex WithLogger ?lo = Inr tf"
    using buildODataFilter_WithLogger by blast
  with filter_window_900 have
    "FilterBlobs client_window tf None = Inr \<lparr>Blobs = [], NextMarker = None\<rparr>"
    by (simp add: client_window_def)
  then have "filter_blobs L_ex client_window tf None [] = Some (Inr [])"
    by (subst filter_blobs.simps) (simp add: collect_blobs_def)
  with tf show ?thesis
    by (simp add: query_def last_ex_def ListReleaseDeployments_def FromContext_def client_of_opts_ex)
qed

lemma query_window_800:
  "query L_ex WithLogger (ListOptions (last_ex client_window 100 250)) (800, 900)
     = Some (Inr (Slice [deployment_ex ''000779a6'' [''a.b'' \<mapsto> ''deadbeef'']]))"
proof -
  let ?lo = "(opts_ex client_window)\<lparr>Since := 800, Until := 900\<rparr>"
  let ?c = "candidate_of L_ex (entry ''r6/release.yaml'' [(''timestamp'', ''850'')])"
  obtain tf where tf: "buildODataFilter L_ex WithLogger ?lo = Inr tf"
    using buildODataFilter_WithLogger by blast
  with filter_window_800 have
    "FilterBlobs client_window tf None
       = Inr \<lparr>Blobs = [entry ''r6/release.yaml'' [(''timestamp'', ''850'')]], NextMarker = None\<rparr>"
    by (simp add: client_window_def)
  then have "filter_blobs L_ex client_window tf None []
               = Some (Inr (eligible_candidates L_ex [entry ''r6/release.yaml'' [(''timestamp'', ''850'')]]))"
    by (subst filter_blobs.simps) (simp add: collect_blobs_eligible)
  moreover have "eligible_candidates L_ex [entry ''r6/release.yaml'' [(''timestamp'', ''850'')]] = [?c]"
    by (simp add: eligible_candidates_def eligible_def entry_def
        blob_tags_def HasSuffix_def L_ex_def Atoi_def is_digit_def dec_val_def digit_val_def MaxInt64_def)
  moreover have "sort_and_limit L_ex ?lo [?c] = [?c]"
    by (simp add: sort_and_limit_def L_ex_def sort_by_def opts_ex_def)
  moreover have "name ?c = ''r6/release.yaml''"
    by (simp add: candidate_of_def entry_def)
  moreover have "downloadAndParseRelease L_ex WithLogger ?lo ''r6/release.yaml''
      = Some (Inr (deployment_ex ''000779a6'' [''a.b'' \<mapsto> ''deadbeef'']))"
    by (simp add: downloadAndParseRelease_def downloadAndParseComponents_def FromContext_def
      opts_ex_def client_window_def client_releases_def L_ex_def release_doc_def MaxInt64_def decode_ReleaseDeployment_def
      unmarshal_fileData_def field_def UnmarshalYAML_def dir_of_def ConfigFileName_def
      components_root_def str_node_def TrimPrefix_def deployment_ex_def)
  ultimately show ?thesis
    using tf
    by (simp add: query_def last_ex_def ListReleaseDeployments_def FromContext_def client_of_opts_ex)
qed

lemma valid_ex: "Validate_durations (last_ex client 100 250) = Inr ()"
  by (simp add: Validate_durations_def last_ex_def)

text \<open>
  The theorem of claim C5 with step 100 and lookback 250: a match in the second
  window back is found by two queries and is the most recent one of that window
  that resolves, and a search that finds nothing gives up after three.
\<close>

theorem backward_search_witness:
  "map_option (\<lambda>(result, o'', queried). (result, queried))
     (LastReleaseDeployment L_ex WithLogger 0 (last_ex client_window 100 250))
     = Some (Inr (deployment_ex ''000779a6'' [''a.b'' \<mapsto> ''deadbeef'']), [(900, 1000), (800, 900)])
   \<and> most_recent_resolved L_ex WithLogger
        ((ListOptions (last_ex client_window 100 250))\<lparr>Since := 800, Until := 900\<rparr>)
        (deployment_ex ''000779a6'' [''a.b'' \<mapsto> ''deadbeef''])
   \<and> map_option (\<lambda>(result, o'', queried). (result, queried))
     (LastReleaseDeployment L_ex WithLogger 0 (last_ex client_configs 100 250))
     = Some (Inl ErrNoDeploymentsFound, [(900, 1000), (800, 900), (700, 800)])"
proof -
  have fit: "int (iterations (last_ex client_window 100 250)) * Step (last_ex client_window 100 250) \<le> MaxInt64"
            "int (iterations (last_ex client_configs 100 250)) * Step (last_ex client_configs 100 250) \<le> MaxInt64"
    by (simp_all add: iterations_ex) (simp_all add: last_ex_def MaxInt64_def)
  have a: "anchor_of 0 (last_ex client 100 250) = 1000" "Step (last_ex client 100 250) = 100" for client
    by (simp_all add: anchor_of_def last_ex_def opts_ex_def)
  have w: "window 1000 100 0 = (900, 1000)" "window 1000 100 (Suc 0) = (800, 900)"
          "window 1000 100 (Suc (Suc 0)) = (700, 800)"
    by (simp_all add: window_def)
  have sorts: "\<forall>xs. mset (sort_Slice L_ex blob_less xs) = mset xs
                \<and> sorted_wrt (\<lambda>a b. \<not> blob_less b a) (sort_Slice L_ex blob_less xs)"
    using sort_by_contract by (simp add: L_ex_def)
  note found = backward_search [OF valid_ex fit(1) sorts, of WithLogger 0]
  note exhausted = backward_search [OF valid_ex fit(2) sorts, of WithLogger 0]
  have f: "map_option (\<lambda>(result, o'', queried). (result, queried))
     (LastReleaseDeployment L_ex WithLogger 0 (last_ex client_window 100 250))
     = Some (Inr (deployment_ex ''000779a6'' [''a.b'' \<mapsto> ''deadbeef'']), [(900, 1000), (800, 900)])"
    using found [THEN conjunct1]
    by (simp add: iterations_ex a numeral_3_eq_3 w query_window_900 query_window_800 query_nothing)
  then obtain o'' where run: "LastReleaseDeployment L_ex WithLogger 0 (last_ex client_window 100 250)
     = Some (Inr (deployment_ex ''000779a6'' [''a.b'' \<mapsto> ''deadbeef'']), o'', [(900, 1000), (800, 900)])"
    by auto
  from found [THEN conjunct2, rule_format, OF run, THEN conjunct2, THEN conjunct2]
  have m: "most_recent_resolved L_ex WithLogger
        ((ListOptions (last_ex client_window 100 250))\<lparr>Since := 800, Until := 900\<rparr>)
        (deployment_ex ''000779a6'' [''a.b'' \<mapsto> ''deadbeef''])"
    by simp
  have n: "map_option (\<lambda>(result, o'', queried). (result, queried))
     (LastReleaseDeployment L_ex WithLogger 0 (last_ex client_configs 100 250))
     = Some (Inl ErrNoDeploymentsFound, [(900, 1000), (800, 900), (700, 800)])"
    using exhausted [THEN conjunct1]
    by (simp add: iterations_ex a numeral_3_eq_3 w query_window_900 query_window_800 query_nothing)
  from f m n show ?thesis by (intro conjI)
qed

lemma run_exhausted:
  "LastReleaseDeployment L_ex WithLogger 0 (last_ex client_configs 100 250)
     = Some (Inl ErrNoDeploymentsFound, last_ex client_configs 100 250,
             [(900, 1000), (800, 900), (700, 800)])"
  by (simp add: LastReleaseDeployment_def IsZero_def last_ex_def Let_def search_back.simps
      list_nothing opts_ex_def Add_def wrap64_def)

text \<open>The theorem of claim C6 at a search that is exhausted: the window is again the one from 300 to 1000.\<close>

theorem window_restored_witness:
  "LastReleaseDeployment L_ex WithLogger 0 (last_ex client_configs 100 250)
     = Some (Inl ErrNoDeploymentsFound, last_ex client_configs 100 250,
             [(900, 1000), (800, 900), (700, 800)])
   \<and> Since (ListOptions (last_ex client_configs 100 250)) = 300
   \<and> Until (ListOptions (last_ex client_configs 100 250)) = 1000"
  using window_restored [OF run_exhausted] run_exhausted
  by (simp add: last_ex_def)

text \<open>
  Claim C5 as stated fails: with the validated durations \<open>step = 2^62 + 1\<close> and
  \<open>maxLookback = 2^62 + 2\<close> nanoseconds, \<open>\<lceil>maxLookback / step\<rceil>\<close> is 2, but the
  offset overflows on its second increment, and the search over a service that
  lists nothing gives up only after five queries, three of them for windows that
  are not of the claimed form.
\<close>

theorem offset_overflow_counterexample:
  "Validate_durations (last_ex client_configs 4611686018427387905 4611686018427387906) = Inr ()
   \<and> iterations (last_ex client_configs 4611686018427387905 4611686018427387906) = 2
   \<and> LastReleaseDeployment L_ex WithLogger 0 (last_ex client_configs 4611686018427387905 4611686018427387906)
     = Some (Inl ErrNoDeploymentsFound, last_ex client_configs 4611686018427387905 4611686018427387906,
             [(- 4611686018427386905, 1000),
              (- 9223372036854774810, - 4611686018427386905),
              (4611686018427388901, 9223372036854776806),
              (996, 4611686018427388901),
              (- 4611686018427386909, 996)])"
  using iterations_wrap [of client_configs]
  by (simp add: Validate_durations_def LastReleaseDeployment_def IsZero_def last_ex_def
      Let_def search_back.simps list_nothing opts_ex_def Add_def wrap64_def)

end
